theory Spec2Isabelle
  imports Main "HOL-Library.Word"
begin

section \<open>The proxy core of main.c\<close>

text \<open>
  The two callbacks of \<^verbatim>\<open>main.c\<close>, \<^verbatim>\<open>dns_server_cb\<close> and \<^verbatim>\<open>https_resp_cb\<close>, are
  embedded as functions on an explicit world: the heap of request contexts that
  \<^verbatim>\<open>calloc\<close> and \<^verbatim>\<open>free\<close> manage, the calls made to \<^verbatim>\<open>https_client_fetch\<close>, the calls made
  to \<^verbatim>\<open>dns_server_respond\<close> and the pointers handed to \<^verbatim>\<open>free\<close>. A C string is
  represented by its bytes before the terminating NUL. Logging (\<^verbatim>\<open>DLOG\<close>, \<^verbatim>\<open>ELOG\<close>,
  \<^verbatim>\<open>ILOG\<close>) and \<^verbatim>\<open>printf\<close> output are not part of the world.
\<close>

type_synonym byte = "8 word"

type_synonym sockaddr_in = "32 word \<times> 16 word"

text \<open>
  A run of a function either returns or stops the process. \<^verbatim>\<open>Exit n\<close> is \<^verbatim>\<open>exit(n)\<close>;
  \<^verbatim>\<open>Undefined\<close> is an access outside the object it is made on (a null or dangling
  pointer, an array index past its end), after which C defines no behaviour.

  Modelled from the spec: the macro \<^verbatim>\<open>FLOG\<close> of \<^verbatim>\<open>logging.h\<close> is not among the sources.
  The spec calls the failures it reports (no memory for a request context) fatal: the
  process terminates rather than proceeding. \<^verbatim>\<open>Fatal\<close> is that termination.
\<close>

datatype halt = Fatal | Undefined | Exit int

record app_state_t =
  https_client :: nat
  resolv :: "string list option"
  extra_request_args :: string

text \<open>
  \<^verbatim>\<open>request_t\<close>. The field \<^verbatim>\<open>char name[254]\<close> is held as the bytes of the array before
  its first NUL; the array is zeroed by \<^verbatim>\<open>calloc\<close>, so after \<^verbatim>\<open>memcpy\<close> of \<open>n \<le> 254\<close>
  non-NUL bytes these are the \<open>n\<close> bytes copied, and the array holds a terminator
  exactly when \<open>n < 254\<close>.
\<close>

record request_t =
  req_tx_id :: "16 word"
  req_raddr :: sockaddr_in
  req_dns_server :: nat
  req_name :: string

text \<open>One call of \<^verbatim>\<open>https_client_fetch(client, url, resolv, https_resp_cb, req)\<close>.\<close>

record fetch_t =
  fetch_client :: nat
  fetch_url :: string
  fetch_resolv :: "string list option"
  fetch_data :: nat

text \<open>One call of \<^verbatim>\<open>dns_server_respond(dns_server, raddr, obuf, r)\<close>.\<close>

record reply_t =
  reply_server :: nat
  reply_raddr :: sockaddr_in
  reply_bytes :: "byte list"

record world =
  heap :: "nat \<Rightarrow> request_t option"
  next_addr :: nat
  oom :: bool
  fetches :: "fetch_t list"
  replies :: "reply_t list"
  frees :: "nat list"

text \<open>
  \<^verbatim>\<open>text_to_dns(tx_id, text, obuf, obuf_size)\<close> is declared in \<^verbatim>\<open>text_to_dns.h\<close>; the
  callbacks take it as a parameter. It returns the \<^verbatim>\<open>int\<close> result and the bytes it
  wrote to \<^verbatim>\<open>obuf\<close>.
\<close>

type_synonym text_to_dns_t = "16 word \<Rightarrow> string \<Rightarrow> nat \<Rightarrow> int \<times> byte list"

subsection \<open>libcurl's \<^verbatim>\<open>curl_escape\<close>\<close>

text \<open>
  \<^verbatim>\<open>curl_escape(string, length)\<close> of libcurl: every byte that is not unreserved
  (a letter, a digit, \<^verbatim>\<open>-\<close>, \<^verbatim>\<open>.\<close>, \<^verbatim>\<open>_\<close> or \<^verbatim>\<open>~\<close>) becomes \<^verbatim>\<open>%XX\<close> with two upper-case
  hexadecimal digits; the others are copied.
\<close>

definition Curl_isunreserved :: "char \<Rightarrow> bool" where
  "Curl_isunreserved c \<longleftrightarrow>
     c \<in> set ''abcdefghijklmnopqrstuvwxyzABCDEFGHIJKLMNOPQRSTUVWXYZ0123456789-._~''"

definition hex_digit :: "nat \<Rightarrow> char" where
  "hex_digit n = ''0123456789ABCDEF'' ! (n mod 16)"

definition escape_byte :: "char \<Rightarrow> string" where
  "escape_byte c =
     (if Curl_isunreserved c then [c]
      else [CHR ''%'', hex_digit (of_char c div 16), hex_digit (of_char c mod 16)])"

definition curl_escape :: "string \<Rightarrow> string" where
  "curl_escape s = concat (map escape_byte s)"

subsection \<open>\<^verbatim>\<open>dns_server_cb\<close>\<close>

text \<open>
  \<^verbatim>\<open>snprintf(dst, n, ...)\<close> stores at most \<open>n - 1\<close> bytes of the formatted text.
\<close>

definition snprintf :: "nat \<Rightarrow> string \<Rightarrow> string" where
  "snprintf n s = take (n - 1) s"

text \<open>
  \<^verbatim>\<open>dns_server_cb(dns_server, data, addr, tx_id, flags, name, type)\<close>, with \<open>app\<close> the
  \<^verbatim>\<open>app_state_t\<close> that \<^verbatim>\<open>data\<close> points to. The allocation \<^verbatim>\<open>calloc(1, sizeof(request_t))\<close>
  returns the fresh address \<open>next_addr w\<close>, or NULL when \<open>oom w\<close>, which is fatal.
  \<^verbatim>\<open>memcpy(req->name, escaped_name, strlen(escaped_name))\<close> writes past the 254 bytes of
  the field when the escaped name is longer than that.
\<close>

definition dns_server_cb ::
  "app_state_t \<Rightarrow> nat \<Rightarrow> sockaddr_in \<Rightarrow> 16 word \<Rightarrow> 16 word \<Rightarrow> string \<Rightarrow> int \<Rightarrow> world
     \<Rightarrow> halt + world" where
  "dns_server_cb app server addr tx_id flags nm type w =
     (if type \<noteq> 1 \<or> 253 < length nm then Inr w
      else
        let escaped_name = curl_escape nm;
            url = snprintf (1500 - 1)
                    (''http://119.29.29.29/d?dn='' @ escaped_name @ extra_request_args app)
        in if oom w then Inl Fatal
           else if 254 < length escaped_name then Inl Undefined
           else
             let req = \<lparr>req_tx_id = tx_id, req_raddr = addr, req_dns_server = server,
                        req_name = escaped_name\<rparr>
             in Inr (w\<lparr>heap := (heap w)(next_addr w := Some req),
                       next_addr := Suc (next_addr w),
                       fetches := fetches w @
                         [\<lparr>fetch_client = https_client app, fetch_url = url,
                           fetch_resolv = resolv app, fetch_data = next_addr w\<rparr>]\<rparr>))"

subsection \<open>\<^verbatim>\<open>https_resp_cb\<close>\<close>

text \<open>
  The delimiter scan \<^verbatim>\<open>for (; ';' != buf[datalen] && datalen < buflen; ++datalen);\<close>.
  The buffer is the memory \<open>buf\<close> points to, indexed from \<open>buf\<close>. The loop condition
  reads \<open>buf[datalen]\<close> first and compares \<open>datalen\<close> with \<open>buflen\<close> second; the
  function returns the final \<open>datalen\<close> and the indices read, in order. \<open>buflen\<close> is
  an \<^verbatim>\<open>unsigned int\<close>; \<open>datalen\<close> is incremented only while it is below \<open>buflen\<close>,
  so it never wraps.
\<close>

function scan :: "(nat \<Rightarrow> char) \<Rightarrow> nat \<Rightarrow> nat \<Rightarrow> nat list \<Rightarrow> nat \<times> nat list" where
  "scan buf buflen datalen reads =
     (if CHR '';'' \<noteq> buf datalen \<and> datalen < buflen
      then scan buf buflen (Suc datalen) (reads @ [datalen])
      else (datalen, reads @ [datalen]))"
  by pat_completeness auto
termination
  by (relation "measure (\<lambda>(buf, buflen, datalen, reads). buflen - datalen)") auto

declare scan.simps [simp del]

text \<open>
  The response buffer: the object that \<open>buf\<close> points to. It is allocated by
  \<^verbatim>\<open>https_client.c\<close>, which is not among the sources, so the number of bytes of the
  allocation is part of the input, beside the memory at \<open>buf\<close>. A read at an index
  that is not below \<open>buf_size\<close> is outside the object.
\<close>

record buffer_t =
  buf_size :: nat
  buf_mem :: "nat \<Rightarrow> char"

text \<open>
  What a callee sees of a \<^verbatim>\<open>char *\<close> that is passed without a length: the bytes
  before the first NUL.
\<close>

definition c_str :: "string \<Rightarrow> string" where
  "c_str s = takeWhile (\<lambda>c. c \<noteq> CHR 0x00) s"

text \<open>
  \<^verbatim>\<open>https_resp_cb(data, buf, buflen)\<close>. \<open>buf = None\<close> is the NULL buffer of a failed
  fetch, \<open>data = None\<close> a NULL context. \<^verbatim>\<open>strlen(req->name)\<close> runs off the field when it
  holds no terminator. The delimiter scan is undefined when one of its reads is outside
  the object \<open>buf\<close> points to. The size \<^verbatim>\<open>namelen + datalen + 2\<close> is computed in
  \<^verbatim>\<open>unsigned int\<close>: when it wraps, the buffer is too small for the copies that
  follow. \<open>bufcpy\<close> holds the bytes copied into it, followed by the zero byte left by
  \<^verbatim>\<open>calloc\<close>; it is passed to \<^verbatim>\<open>text_to_dns\<close> as a \<^verbatim>\<open>char *\<close>, so \<^verbatim>\<open>text_to_dns\<close> is
  given the C string at its start. \<^verbatim>\<open>obuf_size\<close> is 1500. A result \<open>r \<le> 0\<close> is logged
  and no reply is sent; \<^verbatim>\<open>free(req)\<close> follows either way.
\<close>

definition https_resp_cb ::
  "text_to_dns_t \<Rightarrow> nat option \<Rightarrow> buffer_t option \<Rightarrow> nat \<Rightarrow> world \<Rightarrow> halt + world" where
  "https_resp_cb text_to_dns data buf buflen w =
     (case buf of
        None \<Rightarrow> Inr w
      | Some b \<Rightarrow>
         (case data of
            None \<Rightarrow> Inl Fatal
          | Some p \<Rightarrow>
             (case heap w p of
                None \<Rightarrow> Inl Undefined
              | Some req \<Rightarrow>
                 if 254 \<le> length (req_name req) then Inl Undefined
                 else
                   let namelen = length (req_name req);
                       datalen = fst (scan (buf_mem b) buflen 0 []);
                       reads = snd (scan (buf_mem b) buflen 0 [])
                   in if list_ex (\<lambda>i. buf_size b \<le> i) reads then Inl Undefined
                      else if oom w then Inl Fatal
                      else if 2 ^ 32 \<le> namelen + datalen + 2 then Inl Undefined
                      else
                        let bufcpy = req_name req @ [CHR '':''] @ map (buf_mem b) [0..<datalen];
                            (r, obuf) = text_to_dns (req_tx_id req) (c_str bufcpy) 1500;
                            w1 = (if r \<le> 0 then w
                                  else w\<lparr>replies := replies w @
                                         [\<lparr>reply_server = req_dns_server req,
                                           reply_raddr = req_raddr req,
                                           reply_bytes = take (nat r) obuf\<rparr>]\<rparr>)
                        in Inr (w1\<lparr>heap := (heap w1)(p := None),
                                  frees := frees w1 @ [p]\<rparr>))))"

text \<open>
  One callback after another on the same world; a halt ends the run.
\<close>

definition then_cb :: "halt + world \<Rightarrow> (world \<Rightarrow> halt + world) \<Rightarrow> halt + world" where
  "then_cb r cb = (case r of Inl h \<Rightarrow> Inl h | Inr w \<Rightarrow> cb w)"

section \<open>options.c\<close>

text \<open>
  \<^verbatim>\<open>struct Options\<close> is declared in \<^verbatim>\<open>options.h\<close>; its fields are those that
  \<^verbatim>\<open>options_init\<close> assigns. A \<^verbatim>\<open>const char *\<close> field is a string or NULL (\<open>None\<close>).
\<close>

record Options =
  listen_addr :: "string option"
  listen_port :: int
  edns_client_subnet :: "string option"
  logfile :: "string option"
  logfd :: int
  loglevel :: int
  daemonize :: int
  user :: "string option"
  group :: "string option"
  uid :: int
  gid :: int
  bootstrap_dns :: "string option"
  curl_proxy :: "string option"
  use_http_1_1 :: int

text \<open>
  What the C library and the system answer: whether \<^verbatim>\<open>getopt\<close> stops at the first
  non-option argument (POSIX) or skips it (the GNU default), the \<^verbatim>\<open>pw_uid\<close> and
  \<^verbatim>\<open>gr_gid\<close> of the entries \<^verbatim>\<open>getpwnam\<close> and \<^verbatim>\<open>getgrnam\<close> find (\<open>None\<close> for NULL),
  the result of \<^verbatim>\<open>open\<close> on a log file path (a descriptor, or \<open>-1\<close>), and the results
  of \<^verbatim>\<open>setgid\<close> and \<^verbatim>\<open>setuid\<close>.
\<close>

record env =
  posixly_correct :: bool
  getpwnam :: "string \<Rightarrow> nat option"
  getgrnam :: "string \<Rightarrow> nat option"
  sys_open :: "string \<Rightarrow> int"
  setgid :: "int \<Rightarrow> int"
  setuid :: "int \<Rightarrow> int"

text \<open>
  \<^verbatim>\<open>options_init\<close>. The constant \<^verbatim>\<open>LOG_ERROR\<close> of \<^verbatim>\<open>logging.h\<close> is a parameter.
\<close>

definition options_init :: "int \<Rightarrow> Options" where
  "options_init LOG_ERROR =
     \<lparr>listen_addr = Some ''0.0.0.0'',
      listen_port = 5353,
      edns_client_subnet = Some [],
      logfile = Some ''-'',
      logfd = - 1,
      loglevel = LOG_ERROR,
      daemonize = 0,
      user = Some ''nobody'',
      group = Some ''nobody'',
      uid = - 1,
      gid = - 1,
      bootstrap_dns = Some
        ''8.8.8.8,8.8.4.4,145.100.185.15,145.100.185.16,185.49.141.37,199.58.81.218,80.67.188.188'',
      curl_proxy = None,
      use_http_1_1 = 0\<rparr>"

subsection \<open>The C library's \<^verbatim>\<open>getopt\<close> and \<^verbatim>\<open>atoi\<close>\<close>

definition optstring :: string where
  "optstring = ''a:p:e:du:g:t:l:vxh''"

text \<open>
  Looking an option character up in the option string: \<open>None\<close> when it is not an
  option (a colon never is), otherwise whether a colon follows it, that is, whether
  the option takes an argument.
\<close>

fun has_arg :: "string \<Rightarrow> char \<Rightarrow> bool option" where
  "has_arg [] c = None"
| "has_arg (x # xs) c =
     (if x = c \<and> c \<noteq> CHR '':''
      then Some (case xs of [] \<Rightarrow> False | y # ys \<Rightarrow> y = CHR '':'')
      else has_arg xs c)"

text \<open>
  The state of \<^verbatim>\<open>getopt\<close> between calls: the characters of the current argument
  still to be read, and the arguments after it. \<open>next_element\<close> moves to the next
  argument that holds options: \<^verbatim>\<open>--\<close> ends the options; an argument that does not
  start with \<^verbatim>\<open>-\<close>, or is \<^verbatim>\<open>-\<close> alone, is not an option.
\<close>

type_synonym getopt_state = "string \<times> string list"

fun next_element :: "bool \<Rightarrow> string list \<Rightarrow> getopt_state option" where
  "next_element posix [] = None"
| "next_element posix (a # as) =
     (if a = ''--'' then None
      else (case a of
              [] \<Rightarrow> if posix then None else next_element posix as
            | d # r \<Rightarrow>
               if d = CHR ''-'' \<and> r \<noteq> [] then Some (r, as)
               else if posix then None else next_element posix as))"

text \<open>
  One call of \<^verbatim>\<open>getopt\<close>: \<open>None\<close> is the result \<open>-1\<close>; otherwise the character
  returned, \<^verbatim>\<open>optarg\<close> (NULL unless the option takes an argument) and the next state. An
  unknown option character and a missing argument both give \<^verbatim>\<open>?\<close>. An argument is
  the rest of the current command-line argument or, when that is empty, the whole
  next one.
\<close>

definition getopt ::
  "bool \<Rightarrow> string \<Rightarrow> getopt_state \<Rightarrow> (char \<times> string option \<times> getopt_state) option" where
  "getopt posix opts st =
     (case (case fst st of [] \<Rightarrow> next_element posix (snd st) | c # cs \<Rightarrow> Some st) of
        None \<Rightarrow> None
      | Some (nextchar, rest) \<Rightarrow>
         (case nextchar of
            [] \<Rightarrow> None
          | c # cs \<Rightarrow>
             (case has_arg opts c of
                None \<Rightarrow> Some (CHR ''?'', None, (cs, rest))
              | Some False \<Rightarrow> Some (c, None, (cs, rest))
              | Some True \<Rightarrow>
                 (case cs of
                    x # xs \<Rightarrow> Some (c, Some cs, ([], rest))
                  | [] \<Rightarrow>
                     (case rest of
                        [] \<Rightarrow> Some (CHR ''?'', None, ([], []))
                      | a # as \<Rightarrow> Some (c, Some a, ([], as)))))))"

text \<open>
  \<^verbatim>\<open>atoi\<close>: white space, an optional sign, then decimal digits up to the first
  character that is not one. The value is the mathematical one; \<^verbatim>\<open>atoi\<close> is defined
  only where it fits an \<^verbatim>\<open>int\<close>.
\<close>

definition isspace :: "char \<Rightarrow> bool" where
  "isspace c \<longleftrightarrow> c \<in> set [CHR '' '', CHR 0x09, CHR 0x0A, CHR 0x0B, CHR 0x0C, CHR 0x0D]"

definition isdigit :: "char \<Rightarrow> bool" where
  "isdigit c \<longleftrightarrow> c \<in> set ''0123456789''"

fun digits :: "int \<Rightarrow> string \<Rightarrow> int" where
  "digits acc [] = acc"
| "digits acc (c # cs) =
     (if isdigit c then digits (10 * acc + (of_char c - 48)) cs else acc)"

definition atoi :: "string \<Rightarrow> int" where
  "atoi s =
     (case dropWhile isspace s of
        [] \<Rightarrow> 0
      | c # cs \<Rightarrow>
          if c = CHR ''-'' then - digits 0 cs
          else if c = CHR ''+'' then digits 0 cs
          else digits 0 (c # cs))"

subsection \<open>\<^verbatim>\<open>options_parse_args\<close>\<close>

text \<open>
  The \<^verbatim>\<open>switch\<close> of the option loop, in the order of its cases. \<open>Inr (None, opt)\<close> is
  \<^verbatim>\<open>break\<close> (the loop goes on with \<open>opt\<close>), \<open>Inr (Some r, opt)\<close> is \<^verbatim>\<open>return r\<close>.
\<close>

definition switch_c :: "char \<Rightarrow> string option \<Rightarrow> Options \<Rightarrow> halt + (int option \<times> Options)" where
  "switch_c c optarg opt =
     (if c = CHR ''a'' then Inr (None, opt\<lparr>listen_addr := optarg\<rparr>)
      else if c = CHR ''p'' then
        (case optarg of
           None \<Rightarrow> Inl Undefined
         | Some s \<Rightarrow>
            if - (2 ^ 31) \<le> atoi s \<and> atoi s < 2 ^ 31
            then Inr (None, opt\<lparr>listen_port := atoi s\<rparr>)
            else Inl Undefined)
      else if c = CHR ''e'' then Inr (None, opt\<lparr>edns_client_subnet := optarg\<rparr>)
      else if c = CHR ''d'' then Inr (None, opt\<lparr>daemonize := 1\<rparr>)
      else if c = CHR ''u'' then Inr (None, opt\<lparr>user := optarg\<rparr>)
      else if c = CHR ''g'' then Inr (None, opt\<lparr>group := optarg\<rparr>)
      else if c = CHR ''b'' then Inr (None, opt\<lparr>bootstrap_dns := optarg\<rparr>)
      else if c = CHR ''t'' then Inr (None, opt\<lparr>curl_proxy := optarg\<rparr>)
      else if c = CHR ''l'' then Inr (None, opt\<lparr>logfile := optarg\<rparr>)
      else if c = CHR ''v'' then Inr (None, opt\<lparr>loglevel := loglevel opt - 1\<rparr>)
      else if c = CHR ''x'' then Inr (None, opt\<lparr>use_http_1_1 := 1\<rparr>)
      else if c = CHR ''h'' then Inr (Some (- 1), opt)
      else if c = CHR ''?'' then Inr (Some (- 1), opt)
      else Inl (Exit 1))"

text \<open>Each call of \<^verbatim>\<open>getopt\<close> that returns an option shortens what is left to read.\<close>

definition unread :: "getopt_state \<Rightarrow> nat" where
  "unread st = length (fst st) + sum_list (map (\<lambda>a. Suc (length a)) (snd st))"

lemma next_element_unread:
  "next_element posix as = Some st \<Longrightarrow> unread st < unread ([], as) \<and> fst st \<noteq> []"
  by (induction as arbitrary: st) (auto simp: unread_def split: if_splits list.splits)

lemma getopt_unread:
  assumes "getopt posix opts st = Some (c, optarg, st')"
  shows "unread st' < unread st"
proof (cases "fst st")
  case Nil
  then obtain st1 where n: "next_element posix (snd st) = Some st1"
    using assms by (auto simp: getopt_def split: option.splits)
  with next_element_unread [OF n] Nil have "unread st1 < unread st" and "fst st1 \<noteq> []"
    by (simp_all add: unread_def)
  with assms Nil n show ?thesis
    by (cases st1) (auto simp: getopt_def unread_def split: option.splits list.splits bool.splits)
next
  case (Cons x xs)
  with assms show ?thesis
    by (cases st) (auto simp: getopt_def unread_def split: option.splits list.splits bool.splits)
qed

text \<open>The loop \<^verbatim>\<open>while ((c = getopt(argc, argv, "a:p:e:du:g:t:l:vxh")) != -1)\<close>.\<close>

function options_loop ::
  "bool \<Rightarrow> Options \<Rightarrow> getopt_state \<Rightarrow> halt + (int option \<times> Options)" where
  "options_loop posix opt st =
     (case getopt posix optstring st of
        None \<Rightarrow> Inr (None, opt)
      | Some (c, optarg, st') \<Rightarrow>
         (case switch_c c optarg opt of
            Inl h \<Rightarrow> Inl h
          | Inr (Some r, opt') \<Rightarrow> Inr (Some r, opt')
          | Inr (None, opt') \<Rightarrow> options_loop posix opt' st'))"
  by pat_completeness auto
termination
  by (relation "measure (\<lambda>(posix, opt, st). unread st)") (auto simp: getopt_unread)

declare options_loop.simps [simp del]

text \<open>
  The lookup of the user and the group when \<^verbatim>\<open>daemonize\<close> is set: an entry that is
  missing, or whose id is 0, makes \<^verbatim>\<open>options_parse_args\<close> return \<open>-1\<close>.
\<close>

definition lookup_ids :: "env \<Rightarrow> Options \<Rightarrow> halt + (int option \<times> Options)" where
  "lookup_ids e opt =
     (if daemonize opt \<noteq> 0 then
        (case user opt of
           None \<Rightarrow> Inl Undefined
         | Some u \<Rightarrow>
            (case getpwnam e u of
               None \<Rightarrow> Inr (Some (- 1), opt)
             | Some pw_uid \<Rightarrow>
                if pw_uid = 0 then Inr (Some (- 1), opt)
                else
                  let opt1 = opt\<lparr>uid := int pw_uid\<rparr> in
                  (case group opt1 of
                     None \<Rightarrow> Inl Undefined
                   | Some g \<Rightarrow>
                      (case getgrnam e g of
                         None \<Rightarrow> Inr (Some (- 1), opt1)
                       | Some gr_gid \<Rightarrow>
                          if gr_gid = 0 then Inr (Some (- 1), opt1)
                          else Inr (None, opt1\<lparr>gid := int gr_gid\<rparr>)))))
      else Inr (None, opt))"

text \<open>
  The log file: \<^verbatim>\<open>-\<close> is standard output (descriptor 1); any other path is opened
  and the result stored in \<^verbatim>\<open>logfd\<close>. When that result is \<open>\<le> 0\<close> the function prints
  that the file is not writable; in both cases control reaches \<^verbatim>\<open>return 0\<close>.
\<close>

definition open_logfile :: "env \<Rightarrow> Options \<Rightarrow> halt + (int \<times> Options)" where
  "open_logfile e opt =
     (case logfile opt of
        None \<Rightarrow> Inl Undefined
      | Some f \<Rightarrow>
         if f = ''-'' then Inr (0, opt\<lparr>logfd := 1\<rparr>)
         else Inr (0, opt\<lparr>logfd := sys_open e f\<rparr>))"

text \<open>\<^verbatim>\<open>options_parse_args(opt, argc, argv)\<close>; \<^verbatim>\<open>getopt\<close> starts after \<^verbatim>\<open>argv[0]\<close>.\<close>

definition options_parse_args :: "env \<Rightarrow> Options \<Rightarrow> string list \<Rightarrow> halt + (int \<times> Options)" where
  "options_parse_args e opt argv =
     (case options_loop (posixly_correct e) opt ([], drop 1 argv) of
        Inl h \<Rightarrow> Inl h
      | Inr (Some r, opt1) \<Rightarrow> Inr (r, opt1)
      | Inr (None, opt1) \<Rightarrow>
         (case lookup_ids e opt1 of
            Inl h \<Rightarrow> Inl h
          | Inr (Some r, opt2) \<Rightarrow> Inr (r, opt2)
          | Inr (None, opt2) \<Rightarrow> open_logfile e opt2))"

section \<open>Startup: \<^verbatim>\<open>main\<close>\<close>

text \<open>
  \<^verbatim>\<open>main\<close> up to \<^verbatim>\<open>ev_run(loop, 0)\<close>. \<open>Inr (app, opt)\<close> means that the event loop is
  entered, with \<open>app\<close> the \<^verbatim>\<open>app_state_t\<close> registered as the data of \<^verbatim>\<open>dns_server_cb\<close>.
  The static buffer of 200 bytes receives \<^verbatim>\<open>&ip=\<close> and the subnet through
  \<^verbatim>\<open>snprintf(buf, sizeof(buf) - 1, ...)\<close>. \<^verbatim>\<open>app.resolv\<close> is set to NULL; a
  \<^verbatim>\<open>dns_poller_t\<close> is declared before \<^verbatim>\<open>ev_run\<close> and nothing is called on it. The
  initialisers of the other modules (\<^verbatim>\<open>logging_init\<close>, \<^verbatim>\<open>https_client_init\<close>,
  \<^verbatim>\<open>dns_server_init\<close>) are not among the sources and are taken to return.
\<close>

definition main :: "int \<Rightarrow> env \<Rightarrow> string list \<Rightarrow> halt + (app_state_t \<times> Options)" where
  "main LOG_ERROR e argv =
     (case options_parse_args e (options_init LOG_ERROR) argv of
        Inl h \<Rightarrow> Inl h
      | Inr (r, opt) \<Rightarrow>
         if r \<noteq> 0 then Inl (Exit 1)
         else
           (case edns_client_subnet opt of
              None \<Rightarrow> Inl Undefined
            | Some subnet \<Rightarrow>
               let app = \<lparr>https_client = 0, resolv = None,
                          extra_request_args =
                            (if subnet \<noteq> [] then snprintf (200 - 1) (''&ip='' @ subnet)
                             else [])\<rparr>
               in if daemonize opt \<noteq> 0 then
                    (if setgid e (gid opt) \<noteq> 0 then Inl Fatal
                     else if setuid e (uid opt) \<noteq> 0 then Inl Fatal
                     else Inr (app, opt))
                  else Inr (app, opt)))"

section \<open>The wire codec behind \<^verbatim>\<open>text_to_dns\<close>\<close>

text \<open>
  Modelled from the spec: \<^verbatim>\<open>text_to_dns.c\<close> is not among the sources. The definitions of
  this section follow the spec's Wire Codec (\<^verbatim>\<open>parse_answer_body\<close>, \<^verbatim>\<open>encode_response\<close>)
  and its wire protocol: a 12-byte header (id, flags, four counts), one question
  (name, type 1, class 1) and one answer record per address (a pointer to the name,
  type 1, class 1, a TTL, and the four bytes of the address).
\<close>

text \<open>
  The spec's reading of a plain-text body: the addresses listed in it, separated by
  semicolons, in order (\<^verbatim>\<open>"93.184.216.34;93.184.216.35;"\<close> lists two).
\<close>

fun split_on :: "char \<Rightarrow> string \<Rightarrow> string list" where
  "split_on d [] = [[]]"
| "split_on d (c # cs) =
     (if c = d then [] # split_on d cs
      else (case split_on d cs of [] \<Rightarrow> [[c]] | f # fs \<Rightarrow> (c # f) # fs))"

definition listed_addresses :: "string \<Rightarrow> string list" where
  "listed_addresses body = filter (\<lambda>f. f \<noteq> []) (split_on CHR '';'' body)"

text \<open>
  Modelled from the spec: one decimal field of an IPv4 literal, a value below 256
  written with one to three digits.
\<close>

definition octet :: "string \<Rightarrow> byte option" where
  "octet s =
     (if s \<noteq> [] \<and> length s \<le> 3 \<and> list_all isdigit s \<and> digits 0 s < 256
      then Some (of_int (digits 0 s)) else None)"

text \<open>Modelled from the spec: an IP literal, four such fields separated by dots.\<close>

definition parse_ipv4 :: "string \<Rightarrow> byte list option" where
  "parse_ipv4 s =
     (case those (map octet (split_on CHR ''.'' s)) of
        None \<Rightarrow> None
      | Some bs \<Rightarrow> if length bs = 4 then Some bs else None)"

text \<open>
  Modelled from the spec: \<^verbatim>\<open>parse_answer_body\<close> for the plain-text format. The answer is
  the listed addresses in order; a field that is no IP literal makes the body malformed
  (\<open>None\<close>, the spec's \<^verbatim>\<open>BadUpstreamBody\<close>); an empty body is the empty answer.
\<close>

definition parse_answer_body :: "string \<Rightarrow> byte list list option" where
  "parse_answer_body body = those (map parse_ipv4 (listed_addresses body))"

text \<open>Modelled from the spec: 16-bit and 32-bit fields are sent high byte first.\<close>

definition be16 :: "16 word \<Rightarrow> byte list" where
  "be16 x = [ucast (drop_bit 8 x), ucast x]"

definition be32 :: "32 word \<Rightarrow> byte list" where
  "be32 x = [ucast (drop_bit 24 x), ucast (drop_bit 16 x), ucast (drop_bit 8 x), ucast x]"

text \<open>
  Modelled from the spec: the name of the question, as labels with their lengths
  and the root label last. A label of more than 63 bytes has no encoding.
\<close>

definition encode_name :: "string \<Rightarrow> byte list option" where
  "encode_name nm =
     (let labels = filter (\<lambda>l. l \<noteq> []) (split_on CHR ''.'' nm)
      in if list_all (\<lambda>l. length l \<le> 63) labels
         then Some (concat (map (\<lambda>l. of_nat (length l) # map of_char l) labels) @ [0])
         else None)"

text \<open>
  Modelled from the spec: one answer resource record, a pointer back to the name of
  the question (offset 12), type 1, class 1, the TTL, and the four bytes of the
  address. The spec fixes no value of the TTL, so it is a parameter.
\<close>

definition answer_record :: "32 word \<Rightarrow> byte list \<Rightarrow> byte list" where
  "answer_record ttl a = [0xC0, 0x0C] @ be16 1 @ be16 1 @ be32 ttl @ be16 4 @ a"

text \<open>
  Modelled from the spec: \<^verbatim>\<open>encode_response\<close>. The message reuses the id and the
  question, sets the response and recursion-available bits (\<^verbatim>\<open>0x8080\<close>), and carries
  one record per address. Answers that do not fit \<open>obuf_size\<close> are left out and the
  truncation bit (\<^verbatim>\<open>0x0200\<close>) is set.
\<close>

definition encode_response ::
  "32 word \<Rightarrow> 16 word \<Rightarrow> byte list \<Rightarrow> byte list list \<Rightarrow> nat \<Rightarrow> byte list" where
  "encode_response ttl tx_id qname answers obuf_size =
     (let room = (obuf_size - (12 + length qname + 4)) div 16;
          sent = take room answers;
          flags = (if length sent < length answers then 0x8280 else 0x8080)
      in be16 tx_id @ be16 flags @ be16 1 @ be16 (of_nat (length sent)) @ be16 0 @ be16 0 @
         qname @ be16 1 @ be16 1 @
         concat (map (answer_record ttl) sent))"

text \<open>
  Modelled from the spec: \<^verbatim>\<open>text_to_dns(tx_id, text, obuf, obuf_size)\<close>, which
  \<^verbatim>\<open>https_resp_cb\<close> calls with the text \<^verbatim>\<open>name:body\<close>. It returns the length of the
  response and the response, or \<open>-1\<close> when the body is malformed, the name has no
  encoding, or header and question alone exceed \<open>obuf_size\<close>.
\<close>

definition text_to_dns :: "32 word \<Rightarrow> text_to_dns_t" where
  "text_to_dns ttl tx_id txt obuf_size =
     (let nm = takeWhile (\<lambda>c. c \<noteq> CHR '':'') txt;
          body = drop (Suc (length nm)) txt
      in case encode_name nm of
           None \<Rightarrow> (- 1, [])
         | Some qname \<Rightarrow>
            (case parse_answer_body body of
               None \<Rightarrow> (- 1, [])
             | Some answers \<Rightarrow>
                if obuf_size < 12 + length qname + 4 then (- 1, [])
                else
                  let out = encode_response ttl tx_id qname answers obuf_size
                  in (int (length out), out)))"

text \<open>
  Modelled from the spec: reading the transaction id (bytes 0 and 1) and the answer
  count (bytes 6 and 7) off the header of a message.
\<close>

definition reply_id :: "byte list \<Rightarrow> 16 word option" where
  "reply_id bs = (case bs of b0 # b1 # rest \<Rightarrow> Some (word_cat b0 b1) | _ \<Rightarrow> None)"

definition reply_ancount :: "byte list \<Rightarrow> 16 word option" where
  "reply_ancount bs = (case drop 6 bs of b0 # b1 # rest \<Rightarrow> Some (word_cat b0 b1) | _ \<Rightarrow> None)"

section \<open>Concrete inputs\<close>

text \<open>
  The memory a response buffer points to: the bytes of the body \<open>s\<close>, followed by
  whatever lies behind them (\<open>rest\<close>).
\<close>

definition mem_of :: "string \<Rightarrow> (nat \<Rightarrow> char) \<Rightarrow> nat \<Rightarrow> char" where
  "mem_of s rest i = (if i < length s then s ! i else rest (i - length s))"

definition nul_bytes :: "nat \<Rightarrow> char" where
  "nul_bytes i = CHR 0x00"

text \<open>
  The bytes that \<^verbatim>\<open>memcpy(bufcpy + namelen + 1, buf, datalen)\<close> takes from the response
  body in \<^verbatim>\<open>https_resp_cb\<close>.
\<close>

definition answer_text :: "(nat \<Rightarrow> char) \<Rightarrow> nat \<Rightarrow> string" where
  "answer_text b buflen = map b [0..<fst (scan b buflen 0 [])]"

text \<open>
  A response buffer that holds the body \<open>s\<close> and nothing more: the allocation has
  exactly the bytes of the body, and the declared length will be \<open>length s\<close>.
\<close>

definition buf_of :: "string \<Rightarrow> buffer_t" where
  "buf_of s = \<lparr>buf_size = length s, buf_mem = mem_of s nul_bytes\<rparr>"

text \<open>
  The world before the first query, the application state \<^verbatim>\<open>main\<close> builds when no
  subnet is configured, the context of a query for \<^verbatim>\<open>example.com\<close> with id \<^verbatim>\<open>0x1234\<close>,
  and the world once that query has been accepted.
\<close>

definition world0 :: world where
  "world0 = \<lparr>heap = (\<lambda>p. None), next_addr = 0, oom = False, fetches = [], replies = [],
              frees = []\<rparr>"

definition app0 :: app_state_t where
  "app0 = \<lparr>https_client = 0, resolv = None, extra_request_args = []\<rparr>"

definition req1 :: request_t where
  "req1 = \<lparr>req_tx_id = 0x1234, req_raddr = (0x0A000001, 53000), req_dns_server = 0,
            req_name = ''example.com''\<rparr>"

definition world1 :: world where
  "world1 = \<lparr>heap = (\<lambda>p. None)(0 := Some req1), next_addr = 1, oom = False,
              fetches = [\<lparr>fetch_client = 0, fetch_url = ''http://119.29.29.29/d?dn=example.com'',
                          fetch_resolv = None, fetch_data = 0\<rparr>],
              replies = [], frees = []\<rparr>"

text \<open>
  A name of 64 one-character wildcard labels in front of \<^verbatim>\<open>example.com\<close>: 139 bytes
  on the wire, each \<^verbatim>\<open>*\<close> of which \<^verbatim>\<open>curl_escape\<close> turns into \<^verbatim>\<open>%2A\<close>.
\<close>

definition wildcard_name :: string where
  "wildcard_name = concat (replicate 64 ''*.'') @ ''example.com''"

text \<open>
  A system for the examples: GNU \<^verbatim>\<open>getopt\<close>, a user \<^verbatim>\<open>nobody\<close> and a group
  \<^verbatim>\<open>nogroup\<close> with id 65534, one writable log file. Then a command line and a subnet
  argument of 200 bytes.
\<close>

definition env0 :: env where
  "env0 = \<lparr>posixly_correct = False,
            getpwnam = (\<lambda>u. if u = ''nobody'' then Some 65534 else None),
            getgrnam = (\<lambda>g. if g = ''nogroup'' then Some 65534 else None),
            sys_open = (\<lambda>f. if f = ''/var/log/proxy.log'' then 3 else - 1),
            setgid = (\<lambda>g. 0),
            setuid = (\<lambda>u. 0)\<rparr>"

definition argv1 :: "string list" where
  "argv1 = [''https_dns_proxy'', ''-p'', ''53'', ''-e'', ''203.31.0.0/16'']"

definition long_subnet :: string where
  "long_subnet = replicate 200 CHR ''1''"

section \<open>Properties\<close>

subsection \<open>The delimiter scan\<close>

lemma scan_fst:
  "fst (scan b n d r) = d + length (takeWhile (\<lambda>c. c \<noteq> CHR '';'') (map b [d..<n]))"
proof (induction b n d r rule: scan.induct)
  case (1 buf buflen datalen reads)
  show ?case
  proof (cases "CHR '';'' \<noteq> buf datalen \<and> datalen < buflen")
    case True
    then have "[datalen..<buflen] = datalen # [Suc datalen..<buflen]"
      by (simp add: upt_conv_Cons)
    with True 1 show ?thesis
      by (subst scan.simps) auto
  next
    case False
    then have "takeWhile (\<lambda>c. c \<noteq> CHR '';'') (map buf [datalen..<buflen]) = []"
      by (cases "datalen < buflen") (simp_all add: upt_conv_Cons)
    with False show ?thesis
      by (subst scan.simps) auto
  qed
qed

lemma scan_snd:
  "snd (scan b n d r) = r @ [d..<Suc (fst (scan b n d r))]"
proof (induction b n d r rule: scan.induct)
  case (1 buf buflen datalen reads)
  show ?case
  proof (cases "CHR '';'' \<noteq> buf datalen \<and> datalen < buflen")
    case True
    let ?next = "scan buf buflen (Suc datalen) (reads @ [datalen])"
    have le: "datalen < Suc (fst ?next)"
      by (simp add: scan_fst)
    from True 1 have "snd (scan buf buflen datalen reads) =
        (reads @ [datalen]) @ [Suc datalen..<Suc (fst ?next)]"
      by (subst scan.simps) simp
    also have "\<dots> = reads @ [datalen..<Suc (fst ?next)]"
      using le by (simp add: upt_conv_Cons)
    also have "fst ?next = fst (scan buf buflen datalen reads)"
      using True by (subst (2) scan.simps) simp
    finally show ?thesis .
  next
    case False
    then show ?thesis
      by (subst (1 2) scan.simps) auto
  qed
qed

lemma scan_le: "fst (scan b n 0 []) \<le> n"
proof -
  have "length (takeWhile (\<lambda>c. c \<noteq> CHR '';'') (map b [0..<n])) \<le> length (map b [0..<n])"
    by (rule length_takeWhile_le)
  then show ?thesis by (simp add: scan_fst)
qed

lemma scan_no_semicolon:
  assumes "\<forall>i<n. b i \<noteq> CHR '';''"
  shows "fst (scan b n 0 []) = n"
proof -
  have "takeWhile (\<lambda>c. c \<noteq> CHR '';'') (map b [0..<n]) = map b [0..<n]"
    using assms by (simp add: takeWhile_eq_all_conv)
  then have "length (takeWhile (\<lambda>c. c \<noteq> CHR '';'') (map b [0..<n])) = n"
    by (simp only: length_map length_upt diff_zero)
  then show ?thesis by (simp add: scan_fst)
qed

text \<open>
  When one of the first \<open>n\<close> bytes is a semicolon, the scan stops below \<open>n\<close> and
  every index it reads is below \<open>n\<close>.
\<close>

lemma scan_semicolon:
  assumes "i < n" and "b i = CHR '';''"
  shows "fst (scan b n 0 []) < n"
proof -
  let ?xs = "map b [0..<n]"
  let ?P = "\<lambda>c. c \<noteq> CHR '';''"
  have "\<not> (\<forall>x\<in>set ?xs. ?P x)" using assms by auto
  then have "takeWhile ?P ?xs \<noteq> ?xs" by (simp only: takeWhile_eq_all_conv not_False_eq_True)
  moreover have "length (takeWhile ?P ?xs) \<le> length ?xs" by (rule length_takeWhile_le)
  moreover have "takeWhile ?P ?xs = take (length (takeWhile ?P ?xs)) ?xs" by (rule takeWhile_eq_take)
  ultimately have "length (takeWhile ?P ?xs) < length ?xs"
    by (metis le_neq_implies_less take_all_iff order_refl)
  then show ?thesis by (simp add: scan_fst)
qed

lemma scan_reads_within:
  assumes "i < n" and "b i = CHR '';''"
  shows "\<forall>k \<in> set (snd (scan b n 0 [])). k < n"
  using scan_semicolon [of i n b, OF assms] scan_snd [of b n 0 "[]"] by auto

lemma answer_text_takeWhile:
  "answer_text b n = takeWhile (\<lambda>c. c \<noteq> CHR '';'') (map b [0..<n])"
proof -
  let ?xs = "map b [0..<n]"
  let ?k = "length (takeWhile (\<lambda>c. c \<noteq> CHR '';'') ?xs)"
  have k: "?k \<le> n" using length_takeWhile_le [of _ ?xs] by simp
  have "answer_text b n = map b [0..<?k]"
    by (simp add: answer_text_def scan_fst)
  also have "\<dots> = take ?k ?xs"
    using k by (simp add: take_map take_upt)
  also have "\<dots> = takeWhile (\<lambda>c. c \<noteq> CHR '';'') ?xs"
    by (rule takeWhile_eq_take [symmetric])
  finally show ?thesis .
qed

subsection \<open>The completion callback\<close>

lemma scan_reads_outside:
  "list_ex (\<lambda>i. n \<le> i) (snd (scan b buflen 0 [])) \<longleftrightarrow> n \<le> fst (scan b buflen 0 [])"
proof -
  have "snd (scan b buflen 0 []) = [0..<Suc (fst (scan b buflen 0 []))]"
    using scan_snd [of b buflen 0 "[]"] by simp
  then show ?thesis
    by (auto simp: list_ex_iff less_Suc_eq_le)
qed

text \<open>
  What \<^verbatim>\<open>https_resp_cb\<close> does with a response body, for a live context whose name field
  holds a terminator, when the scan stays inside the buffer, memory is available and
  the size computation does not wrap.
\<close>

lemma https_resp_cb_body:
  assumes "heap w p = Some req" and "length (req_name req) < 254" and "\<not> oom w"
    and "length (req_name req) + buflen + 2 < 2 ^ 32"
    and "fst (scan (buf_mem b) buflen 0 []) < buf_size b"
  shows "https_resp_cb t2d (Some p) (Some b) buflen w =
     Inr (w\<lparr>replies := replies w @
              (case t2d (req_tx_id req)
                     (c_str (req_name req @ [CHR '':''] @ answer_text (buf_mem b) buflen)) 1500 of
                 (r, obuf) \<Rightarrow>
                   if r \<le> 0 then []
                   else [\<lparr>reply_server = req_dns_server req, reply_raddr = req_raddr req,
                          reply_bytes = take (nat r) obuf\<rparr>]),
            heap := (heap w)(p := None),
            frees := frees w @ [p]\<rparr>)"
proof -
  have "length (req_name req) + fst (scan (buf_mem b) buflen 0 []) + 2 < 2 ^ 32"
    using assms(4) scan_le [of "buf_mem b" buflen] by linarith
  then have nowrap: "\<not> (2 ^ 32 \<le> length (req_name req) + fst (scan (buf_mem b) buflen 0 []) + 2)"
    by simp
  have inside: "\<not> list_ex (\<lambda>i. buf_size b \<le> i) (snd (scan (buf_mem b) buflen 0 []))"
    using assms(5) by (simp add: scan_reads_outside)
  from assms(1-3) nowrap inside show ?thesis
    by (simp add: https_resp_cb_def answer_text_def Let_def split: prod.splits)
qed

text \<open>On that path the context is handed to \<^verbatim>\<open>free\<close> once and is no longer allocated.\<close>

lemma https_resp_cb_body_frees:
  assumes "heap w p = Some req" and "length (req_name req) < 254" and "\<not> oom w"
    and "length (req_name req) + buflen + 2 < 2 ^ 32"
    and "fst (scan (buf_mem b) buflen 0 []) < buf_size b"
  shows "\<exists>w'. https_resp_cb t2d (Some p) (Some b) buflen w = Inr w' \<and>
           frees w' = frees w @ [p] \<and> heap w' p = None"
  by (simp add: https_resp_cb_body [OF assms])

text \<open>
  A body without a semicolon in a buffer of exactly \<open>buflen\<close> bytes: the scan reads
  past the buffer.
\<close>

lemma https_resp_cb_no_semicolon:
  assumes "heap w p = Some req" and "length (req_name req) < 254"
    and "\<forall>i<buflen. buf_mem b i \<noteq> CHR '';''" and "buf_size b \<le> buflen"
  shows "https_resp_cb t2d (Some p) (Some b) buflen w = Inl Undefined"
proof -
  have "list_ex (\<lambda>i. buf_size b \<le> i) (snd (scan (buf_mem b) buflen 0 []))"
    using scan_no_semicolon [OF assms(3)] assms(4) by (simp add: scan_reads_outside)
  with assms(1,2) show ?thesis
    by (simp add: https_resp_cb_def Let_def)
qed

text \<open>Whenever the callback returns on a response body, this is what it has sent.\<close>

lemma https_resp_cb_Inr:
  assumes "https_resp_cb t2d (Some p) (Some b) buflen w = Inr w'"
  shows "\<exists>req. heap w p = Some req \<and>
           replies w' = replies w @
             (case t2d (req_tx_id req)
                    (c_str (req_name req @ [CHR '':''] @ answer_text (buf_mem b) buflen)) 1500 of
                (r, obuf) \<Rightarrow>
                  if r \<le> 0 then []
                  else [\<lparr>reply_server = req_dns_server req, reply_raddr = req_raddr req,
                         reply_bytes = take (nat r) obuf\<rparr>])"
  using assms
  by (auto simp: https_resp_cb_def answer_text_def Let_def split: option.splits if_splits prod.splits)

lemma https_resp_cb_fetches:
  assumes "https_resp_cb t2d data buf buflen w = Inr w'"
  shows "fetches w' = fetches w"
  using assms
  by (auto simp: https_resp_cb_def Let_def split: option.splits if_splits prod.splits)

subsection \<open>The text for \<^verbatim>\<open>text_to_dns\<close> and the reply\<close>

text \<open>An escaped name holds neither a colon nor a NUL.\<close>

lemma hex_digit_in: "hex_digit n \<in> set ''0123456789ABCDEF''"
proof -
  have "n mod 16 < length ''0123456789ABCDEF''" by simp
  then show ?thesis unfolding hex_digit_def by (rule nth_mem)
qed

lemma escape_byte_chars:
  assumes "x \<in> set (escape_byte c)"
  shows "x \<noteq> CHR '':'' \<and> x \<noteq> CHR 0x00"
proof (cases "Curl_isunreserved c")
  case True
  with assms have "x = c" by (simp add: escape_byte_def)
  with True show ?thesis by (auto simp: Curl_isunreserved_def)
next
  case False
  with assms have "x = CHR ''%'' \<or> x \<in> set ''0123456789ABCDEF''"
    using hex_digit_in by (auto simp: escape_byte_def)
  then show ?thesis by auto
qed

lemma curl_escape_chars:
  "CHR '':'' \<notin> set (curl_escape s)" "CHR 0x00 \<notin> set (curl_escape s)"
  using escape_byte_chars by (auto simp: curl_escape_def)

lemma c_str_name:
  assumes "CHR 0x00 \<notin> set nm"
  shows "c_str (nm @ [CHR '':''] @ body) = nm @ CHR '':'' # c_str body"
proof -
  have "\<And>x. x \<in> set nm \<Longrightarrow> x \<noteq> CHR 0x00" using assms by auto
  then have "takeWhile (\<lambda>c. c \<noteq> CHR 0x00) (nm @ ([CHR '':''] @ body)) =
      nm @ takeWhile (\<lambda>c. c \<noteq> CHR 0x00) ([CHR '':''] @ body)"
    by (rule takeWhile_append2)
  then show ?thesis by (simp add: c_str_def)
qed

text \<open>A text without the separator is one field; the fields of a text add up to it.\<close>

lemma split_on_none: "d \<notin> set s \<Longrightarrow> split_on d s = [s]"
  by (induction s) auto

lemma split_on_total: "sum_list (map (\<lambda>l. Suc (length l)) (split_on d s)) = Suc (length s)"
  by (induction s) (auto split: list.splits)

lemma listed_addresses_le1:
  assumes "CHR '';'' \<notin> set s"
  shows "length (listed_addresses s) \<le> 1"
  using assms by (simp add: listed_addresses_def split_on_none)

lemma those_length: "those xs = Some ys \<Longrightarrow> length ys = length xs"
  by (induction xs arbitrary: ys) (auto split: option.splits)

lemma sum_list_filter_le:
  "sum_list (map f (filter P xs)) \<le> sum_list (map (f :: 'a \<Rightarrow> nat) xs)"
  by (induction xs) auto

lemma encode_name_length:
  assumes "encode_name nm = Some q"
  shows "length q \<le> length nm + 2"
proof -
  let ?ls = "split_on CHR ''.'' nm"
  have "sum_list (map (\<lambda>l. Suc (length l)) (filter (\<lambda>l. l \<noteq> []) ?ls))
      \<le> sum_list (map (\<lambda>l. Suc (length l)) ?ls)"
    by (rule sum_list_filter_le)
  then have "sum_list (map (\<lambda>l. Suc (length l)) (filter (\<lambda>l. l \<noteq> []) ?ls)) \<le> Suc (length nm)"
    by (simp add: split_on_total)
  moreover have "length q = sum_list (map (\<lambda>l. Suc (length l)) (filter (\<lambda>l. l \<noteq> []) ?ls)) + 1"
    using assms
    by (auto simp: encode_name_def Let_def length_concat comp_def split: if_splits)
  ultimately show ?thesis by simp
qed

text \<open>
  \<^verbatim>\<open>text_to_dns\<close> on a text \<^verbatim>\<open>name:body\<close>, and the message when every answer fits.
\<close>

lemma text_to_dns_name_body:
  assumes "CHR '':'' \<notin> set nm"
  shows "text_to_dns ttl tx_id (nm @ CHR '':'' # body) n =
     (case encode_name nm of
        None \<Rightarrow> (- 1, [])
      | Some qname \<Rightarrow>
         (case parse_answer_body body of
            None \<Rightarrow> (- 1, [])
          | Some answers \<Rightarrow>
             if n < 12 + length qname + 4 then (- 1, [])
             else (int (length (encode_response ttl tx_id qname answers n)),
                   encode_response ttl tx_id qname answers n)))"
proof -
  have "takeWhile (\<lambda>c. c \<noteq> CHR '':'') nm = nm"
    using assms by (auto simp: takeWhile_eq_all_conv)
  then have "takeWhile (\<lambda>c. c \<noteq> CHR '':'') (nm @ CHR '':'' # body) = nm"
    by (simp add: takeWhile_tail)
  then show ?thesis
    by (simp add: text_to_dns_def Let_def split: option.splits)
qed

lemma encode_response_all:
  assumes "length answers \<le> (n - (12 + length qname + 4)) div 16"
  shows "encode_response ttl tx_id qname answers n =
     be16 tx_id @ be16 0x8080 @ be16 1 @ be16 (of_nat (length answers)) @ be16 0 @ be16 0 @
     qname @ be16 1 @ be16 1 @ concat (map (answer_record ttl) answers)"
  using assms by (simp add: encode_response_def Let_def)

lemma word_cat_be16: "word_cat (ucast (drop_bit 8 x) :: 8 word) (ucast x :: 8 word) = (x :: 16 word)"
  by (rule bit_word_eqI) (auto simp: bit_simps)

lemma encode_response_id: "reply_id (encode_response ttl tx_id qname answers n) = Some tx_id"
  by (simp add: encode_response_def Let_def be16_def reply_id_def word_cat_be16)

lemma text_to_dns_id:
  assumes "text_to_dns ttl tx_id txt n = (r, obuf)" and "0 < r"
  shows "reply_id (take (nat r) obuf) = Some tx_id"
  using assms
  by (auto simp: text_to_dns_def Let_def encode_response_id split: option.splits if_splits)

text \<open>
  The reply to a context with an escaped name, when the text after the colon has
  no semicolon: if one is sent, it carries one answer record for each address parsed
  from that text, in order.
\<close>

lemma text_to_dns_first_record:
  assumes "length (curl_escape nm) < 254" and "CHR '';'' \<notin> set body"
    and "text_to_dns ttl tx_id (curl_escape nm @ CHR '':'' # body) 1500 = (r, obuf)" and "0 < r"
  shows "\<exists>qname answers.
           encode_name (curl_escape nm) = Some qname \<and> parse_answer_body body = Some answers \<and>
           take (nat r) obuf =
             be16 tx_id @ be16 0x8080 @ be16 1 @ be16 (of_nat (length answers)) @ be16 0 @ be16 0 @
             qname @ be16 1 @ be16 1 @ concat (map (answer_record ttl) answers)"
proof -
  note split = text_to_dns_name_body [OF curl_escape_chars(1), of ttl tx_id nm body 1500]
  from assms(3,4) split obtain qname where q: "encode_name (curl_escape nm) = Some qname"
    by (cases "encode_name (curl_escape nm)") auto
  from assms(3,4) split q obtain answers where a: "parse_answer_body body = Some answers"
    by (cases "parse_answer_body body") auto
  have "length qname \<le> 255"
    using encode_name_length [OF q] assms(1) by simp
  then have room: "76 \<le> (1500 - (12 + length qname + 4)) div 16"
    by simp
  have "length answers = length (listed_addresses body)"
    using a by (simp add: parse_answer_body_def those_length)
  with listed_addresses_le1 [OF assms(2)] have "length answers \<le> 1" by simp
  with room have fit: "length answers \<le> (1500 - (12 + length qname + 4)) div 16"
    by linarith
  let ?out = "be16 tx_id @ be16 0x8080 @ be16 1 @ be16 (of_nat (length answers)) @ be16 0 @ be16 0 @
             qname @ be16 1 @ be16 1 @ concat (map (answer_record ttl) answers)"
  from \<open>length qname \<le> 255\<close> have "\<not> 1500 < 12 + length qname + 4" by simp
  with split q a have "text_to_dns ttl tx_id (curl_escape nm @ CHR '':'' # body) 1500 =
      (int (length ?out), ?out)"
    by (simp add: encode_response_all [OF fit])
  with assms(3) have "(r, obuf) = (int (length ?out), ?out)"
    by (simp only:)
  then have "r = int (length ?out)" and "obuf = ?out"
    by blast+
  then have "take (nat r) obuf = ?out" by simp
  with q a show ?thesis by blast
qed

text \<open>
  For a name that fits the context and a body without a semicolon, \<^verbatim>\<open>text_to_dns\<close> fails
  exactly when the name has no encoding or the body is malformed; otherwise its
  output is the whole response, nothing truncated.
\<close>

lemma those_map_set:
  "those (map f xs) = Some ys \<Longrightarrow> a \<in> set ys \<Longrightarrow> \<exists>x\<in>set xs. f x = Some a"
  by (induction xs arbitrary: ys) (auto split: option.splits)

lemma parse_answer_body_four:
  assumes "parse_answer_body body = Some answers" and "a \<in> set answers"
  shows "length a = 4"
proof -
  from assms obtain x where "parse_ipv4 x = Some a"
    unfolding parse_answer_body_def by (blast dest: those_map_set)
  then show ?thesis
    by (auto simp: parse_ipv4_def split: option.splits if_splits)
qed

lemma answer_records_length:
  assumes "\<And>a. a \<in> set answers \<Longrightarrow> length a = 4"
  shows "length (concat (map (answer_record ttl) answers)) = 16 * length answers"
  using assms by (induction answers) (simp_all add: answer_record_def be16_def be32_def)

lemma text_to_dns_record:
  assumes "length (curl_escape nm) < 254" and "CHR '';'' \<notin> set body"
  shows "text_to_dns ttl tx_id (curl_escape nm @ CHR '':'' # body) 1500 =
     (case encode_name (curl_escape nm) of
        None \<Rightarrow> (- 1, [])
      | Some qname \<Rightarrow>
         (case parse_answer_body body of
            None \<Rightarrow> (- 1, [])
          | Some answers \<Rightarrow>
             (int (16 + length qname + 16 * length answers),
              be16 tx_id @ be16 0x8080 @ be16 1 @ be16 (of_nat (length answers)) @
              be16 0 @ be16 0 @ qname @ be16 1 @ be16 1 @
              concat (map (answer_record ttl) answers))))"
proof (cases "encode_name (curl_escape nm)")
  case None
  then show ?thesis
    by (simp add: text_to_dns_name_body [OF curl_escape_chars(1)])
next
  case (Some qname)
  note q = this
  show ?thesis
  proof (cases "parse_answer_body body")
    case None
    with q show ?thesis
      by (simp add: text_to_dns_name_body [OF curl_escape_chars(1)])
  next
    case (Some answers)
    have "length qname \<le> 255"
      using encode_name_length [OF q] assms(1) by simp
    then have room: "76 \<le> (1500 - (12 + length qname + 4)) div 16"
      and fits: "\<not> 1500 < 12 + length qname + 4"
      by simp_all
    have "length answers = length (listed_addresses body)"
      using Some by (simp add: parse_answer_body_def those_length)
    with listed_addresses_le1 [OF assms(2)] have "length answers \<le> 1" by simp
    with room have fit: "length answers \<le> (1500 - (12 + length qname + 4)) div 16"
      by linarith
    let ?out = "be16 tx_id @ be16 0x8080 @ be16 1 @
          be16 (of_nat (length answers)) @ be16 0 @ be16 0 @ qname @ be16 1 @ be16 1 @
          concat (map (answer_record ttl) answers)"
    have len: "length ?out = 16 + length qname + 16 * length answers"
      using answer_records_length [of answers ttl] parse_answer_body_four [OF Some]
      by (simp add: be16_def)
    have "text_to_dns ttl tx_id (curl_escape nm @ CHR '':'' # body) 1500 =
        (int (length ?out), ?out)"
      using q Some fits
      by (simp add: text_to_dns_name_body [OF curl_escape_chars(1)] encode_response_all [OF fit])
    then have "text_to_dns ttl tx_id (curl_escape nm @ CHR '':'' # body) 1500 =
        (int (16 + length qname + 16 * length answers), ?out)"
      by (simp only: len)
    with q Some show ?thesis by simp
  qed
qed

subsection \<open>The example query\<close>

lemma dns_server_cb_example:
  "dns_server_cb app0 0 (0x0A000001, 53000) 0x1234 0x0100 ''example.com'' 1 world0 = Inr world1"
  by (simp add: dns_server_cb_def world0_def world1_def app0_def req1_def Let_def snprintf_def
      curl_escape_def escape_byte_def Curl_isunreserved_def)

lemma wildcard_name_length: "length wildcard_name = 139"
  unfolding wildcard_name_def by code_simp

lemma wildcard_name_escaped: "length (curl_escape wildcard_name) = 267"
  unfolding wildcard_name_def by code_simp

subsection \<open>The command line\<close>

text \<open>
  \<^verbatim>\<open>getopt\<close> never returns \<^verbatim>\<open>b\<close>, which is not in the option string, so the case
  \<^verbatim>\<open>'b'\<close> of the \<^verbatim>\<open>switch\<close> is never taken and \<^verbatim>\<open>bootstrap_dns\<close> keeps its value.
\<close>

lemma getopt_not_b:
  assumes "getopt posix optstring st = Some (c, optarg, st')"
  shows "c \<noteq> CHR ''b''"
proof
  assume b: "c = CHR ''b''"
  have "has_arg optstring CHR ''b'' = None" by (simp add: optstring_def)
  with assms b show False
    by (auto simp: getopt_def split: option.splits list.splits bool.splits)
qed

lemma switch_c_bootstrap_dns:
  assumes "c \<noteq> CHR ''b''" and "switch_c c optarg opt = Inr (r, opt')"
  shows "bootstrap_dns opt' = bootstrap_dns opt"
  using assms by (auto simp: switch_c_def split: if_splits option.splits)

lemma options_loop_bootstrap_dns:
  "options_loop posix opt st = Inr (r, opt') \<Longrightarrow> bootstrap_dns opt' = bootstrap_dns opt"
proof (induction posix opt st rule: options_loop.induct)
  case (1 posix opt st)
  show ?case
  proof (cases "getopt posix optstring st")
    case None
    with "1.prems" show ?thesis by (simp add: options_loop.simps)
  next
    case (Some t)
    then obtain c optarg st' where g: "getopt posix optstring st = Some (c, optarg, st')"
      by (cases t) auto
    note nb = getopt_not_b [OF g]
    show ?thesis
    proof (cases "switch_c c optarg opt")
      case (Inl h)
      with g "1.prems" show ?thesis by (simp add: options_loop.simps)
    next
      case (Inr p)
      obtain ro opt1 where sw: "switch_c c optarg opt = Inr (ro, opt1)"
        using Inr by (cases p) auto
      have keep: "bootstrap_dns opt1 = bootstrap_dns opt"
        using switch_c_bootstrap_dns [OF nb sw] .
      show ?thesis
      proof (cases ro)
        case None
        with g sw "1.prems" have loop: "options_loop posix opt1 st' = Inr (r, opt')"
          by (simp add: options_loop.simps)
        have "bootstrap_dns opt' = bootstrap_dns opt1"
          using "1.IH" [OF g refl refl sw refl None loop] .
        with keep show ?thesis by simp
      next
        case (Some x)
        with g sw "1.prems" keep show ?thesis by (simp add: options_loop.simps)
      qed
    qed
  qed
qed

lemma lookup_ids_bootstrap_dns:
  "lookup_ids e opt = Inr (r, opt') \<Longrightarrow> bootstrap_dns opt' = bootstrap_dns opt"
  by (auto simp: lookup_ids_def Let_def split: if_splits option.splits)

lemma open_logfile_bootstrap_dns:
  "open_logfile e opt = Inr (r, opt') \<Longrightarrow> bootstrap_dns opt' = bootstrap_dns opt"
  by (auto simp: open_logfile_def split: if_splits option.splits)

lemma options_parse_args_bootstrap_dns:
  assumes "options_parse_args e opt argv = Inr (r, opt')"
  shows "bootstrap_dns opt' = bootstrap_dns opt"
proof (cases "options_loop (posixly_correct e) opt ([], drop 1 argv)")
  case (Inl h)
  with assms show ?thesis by (simp add: options_parse_args_def)
next
  case (Inr p)
  obtain ro opt1 where l: "options_loop (posixly_correct e) opt ([], drop 1 argv) = Inr (ro, opt1)"
    using Inr by (cases p) auto
  note k1 = options_loop_bootstrap_dns [OF l]
  show ?thesis
  proof (cases ro)
    case (Some x)
    with assms l k1 show ?thesis by (simp add: options_parse_args_def)
  next
    case None
    show ?thesis
    proof (cases "lookup_ids e opt1")
      case (Inl h)
      with assms l None show ?thesis by (simp add: options_parse_args_def)
    next
      case (Inr q)
      obtain ro2 opt2 where i: "lookup_ids e opt1 = Inr (ro2, opt2)"
        using Inr by (cases q) auto
      note k2 = lookup_ids_bootstrap_dns [OF i]
      show ?thesis
      proof (cases ro2)
        case (Some x)
        with assms l None i k1 k2 show ?thesis by (simp add: options_parse_args_def)
      next
        case None2: None
        with assms l None i have "open_logfile e opt2 = Inr (r, opt')"
          by (simp add: options_parse_args_def)
        from open_logfile_bootstrap_dns [OF this] k1 k2 show ?thesis by simp
      qed
    qed
  qed
qed

lemma option_b_rejected:
  "options_parse_args e opt (prog # (CHR ''-'' # CHR ''b'' # x) # rest) = Inr (- 1, opt)"
  by (simp add: options_parse_args_def options_loop.simps getopt_def optstring_def switch_c_def)

lemma argv1_parsed:
  "options_parse_args env0 (options_init 3) argv1 =
     Inr (0, (options_init 3)\<lparr>listen_port := 53, edns_client_subnet := Some ''203.31.0.0/16'',
                               logfd := 1\<rparr>)"
  by (simp add: argv1_def options_parse_args_def options_loop.simps getopt_def optstring_def
      switch_c_def atoi_def isspace_def isdigit_def lookup_ids_def open_logfile_def
      options_init_def env0_def)

text \<open>
  With \<^verbatim>\<open>-d\<close>, a user or a group that has no entry makes \<^verbatim>\<open>options_parse_args\<close> return
  \<open>-1\<close>, and \<^verbatim>\<open>main\<close> exits with status 1.
\<close>

lemma invalid_user_exits:
  "main le (e\<lparr>getpwnam := (\<lambda>u. None)\<rparr>) [prog, ''-d''] = Inl (Exit 1)"
  by (simp add: main_def options_parse_args_def options_loop.simps getopt_def optstring_def
      switch_c_def lookup_ids_def options_init_def)

lemma invalid_group_exits:
  "main le (e\<lparr>getpwnam := (\<lambda>u. Some 65534), getgrnam := (\<lambda>g. None)\<rparr>) [prog, ''-d''] =
     Inl (Exit 1)"
  by (simp add: main_def options_parse_args_def options_loop.simps getopt_def optstring_def
      switch_c_def lookup_ids_def options_init_def)

subsection \<open>Startup\<close>

lemma main_default:
  "main 3 env0 [''https_dns_proxy''] = Inr (app0, (options_init 3)\<lparr>logfd := 1\<rparr>)"
  by (simp add: main_def options_parse_args_def options_loop.simps getopt_def
      lookup_ids_def open_logfile_def options_init_def app0_def)

lemma parse_subnet:
  "options_parse_args e (options_init le) [prog, ''-e'', s] =
     Inr (0, (options_init le)\<lparr>edns_client_subnet := Some s, logfd := 1\<rparr>)"
  by (simp add: options_parse_args_def options_loop.simps getopt_def optstring_def
      switch_c_def lookup_ids_def open_logfile_def options_init_def)

lemma main_subnet:
  "main le e [prog, ''-e'', s] =
     Inr (\<lparr>https_client = 0, resolv = None,
           extra_request_args = (if s \<noteq> [] then ''&ip='' @ take 194 s else [])\<rparr>,
          (options_init le)\<lparr>edns_client_subnet := Some s, logfd := 1\<rparr>)"
  by (simp add: main_def parse_subnet snprintf_def) (simp add: options_init_def)

lemma main_app:
  assumes "main le e argv = Inr (app, opt)"
  shows "\<exists>subnet. edns_client_subnet opt = Some subnet \<and>
           app = \<lparr>https_client = 0, resolv = None,
                  extra_request_args =
                    (if subnet \<noteq> [] then ''&ip='' @ take 194 subnet else [])\<rparr>"
  using assms
  by (auto simp: main_def snprintf_def Let_def split: sum.splits prod.splits if_splits option.splits)

lemma dns_server_cb_accept:
  assumes "type = 1" and "length nm \<le> 253" and "length (curl_escape nm) \<le> 254"
    and "\<not> oom w" and "length (extra_request_args app) \<le> 198"
  shows "dns_server_cb app server addr tx_id flags nm type w =
     Inr (w\<lparr>heap := (heap w)(next_addr w :=
                  Some \<lparr>req_tx_id = tx_id, req_raddr = addr, req_dns_server = server,
                        req_name = curl_escape nm\<rparr>),
              next_addr := Suc (next_addr w),
              fetches := fetches w @
                [\<lparr>fetch_client = https_client app,
                  fetch_url = ''http://119.29.29.29/d?dn='' @ curl_escape nm @ extra_request_args app,
                  fetch_resolv = resolv app, fetch_data = next_addr w\<rparr>]\<rparr>)"
  using assms by (simp add: dns_server_cb_def Let_def snprintf_def)

lemma dns_server_cb_fetches:
  assumes "dns_server_cb app server addr tx_id flags nm type w = Inr w'"
  shows "fetches w' = fetches w \<or>
         (\<exists>f. fetches w' = fetches w @ [f] \<and> fetch_resolv f = resolv app)"
  using assms by (auto simp: dns_server_cb_def Let_def split: if_splits)

lemma dns_server_cb_context:
  assumes "dns_server_cb app server addr tx_id flags nm type w = Inr w1"
    and "type = 1" and "length nm \<le> 253"
  shows "heap w1 (next_addr w) =
           Some \<lparr>req_tx_id = tx_id, req_raddr = addr, req_dns_server = server,
                 req_name = curl_escape nm\<rparr>"
  using assms by (auto simp: dns_server_cb_def Let_def split: if_splits)

subsection \<open>Claims\<close>

text \<open>
  C1 (the failure path). A fetch that reports failure calls \<^verbatim>\<open>https_resp_cb\<close> with a
  NULL buffer. The callback then returns at once and leaves the world as it is: no
  reply is sent, and the request context is not handed to \<^verbatim>\<open>free\<close>; it stays
  allocated.
\<close>

theorem https_resp_cb_failed_fetch:
  "https_resp_cb t2d data None buflen w = Inr w"
  by (simp add: https_resp_cb_def)

text \<open>
  C2 (as the code has it). For the context of an escaped name and a body with a
  semicolon among its first \<open>buflen\<close> bytes, all inside the buffer: the text handed to
  \<^verbatim>\<open>text_to_dns\<close> is the stored name, a colon, and the bytes of the body before its
  first semicolon, up to a NUL if there is one among them. Only the first record of
  the body reaches the encoder. With the \<^verbatim>\<open>text_to_dns\<close> of the spec, a reply is sent
  exactly when the name has an encoding and that record parses, and it carries one
  answer record for each address parsed from the record, in order.
\<close>

theorem https_resp_cb_first_record:
  assumes "heap w p = Some req" and "req_name req = curl_escape nm"
    and "length (curl_escape nm) < 254" and "\<not> oom w"
    and "length (curl_escape nm) + buflen + 2 < 2 ^ 32"
    and "i < buflen" and "buf_mem b i = CHR '';''" and "buflen \<le> buf_size b"
  shows "https_resp_cb t2d (Some p) (Some b) buflen w =
     Inr (w\<lparr>replies := replies w @
              (case t2d (req_tx_id req)
                     (curl_escape nm @ CHR '':'' #
                        c_str (takeWhile (\<lambda>c. c \<noteq> CHR '';'') (map (buf_mem b) [0..<buflen])))
                     1500 of
                 (r, obuf) \<Rightarrow>
                   if r \<le> 0 then []
                   else [\<lparr>reply_server = req_dns_server req, reply_raddr = req_raddr req,
                          reply_bytes = take (nat r) obuf\<rparr>]),
            heap := (heap w)(p := None),
            frees := frees w @ [p]\<rparr>) \<and>
   (\<exists>w'. https_resp_cb (text_to_dns ttl) (Some p) (Some b) buflen w = Inr w' \<and>
      replies w' = replies w @
        (case encode_name (curl_escape nm) of
           None \<Rightarrow> []
         | Some qname \<Rightarrow>
            (case parse_answer_body
                    (c_str (takeWhile (\<lambda>c. c \<noteq> CHR '';'') (map (buf_mem b) [0..<buflen]))) of
               None \<Rightarrow> []
             | Some answers \<Rightarrow>
                [\<lparr>reply_server = req_dns_server req, reply_raddr = req_raddr req,
                  reply_bytes =
                    be16 (req_tx_id req) @ be16 0x8080 @ be16 1 @
                    be16 (of_nat (length answers)) @ be16 0 @ be16 0 @
                    qname @ be16 1 @ be16 1 @
                    concat (map (answer_record ttl) answers)\<rparr>])))"
proof -
  let ?rec = "takeWhile (\<lambda>c. c \<noteq> CHR '';'') (map (buf_mem b) [0..<buflen])"
  let ?text = "curl_escape nm @ CHR '':'' # c_str ?rec"
  have inside: "fst (scan (buf_mem b) buflen 0 []) < buf_size b"
    using scan_semicolon [of i buflen "buf_mem b"] assms(6-8) by simp
  have handed: "c_str (req_name req @ [CHR '':''] @ answer_text (buf_mem b) buflen) = ?text"
    using c_str_name [OF curl_escape_chars(2), of nm] assms(2)
    by (simp add: answer_text_takeWhile)
  have len: "length (req_name req) < 254" "length (req_name req) + buflen + 2 < 2 ^ 32"
    using assms(2,3,5) by simp_all
  have run: "https_resp_cb t2d (Some p) (Some b) buflen w =
     Inr (w\<lparr>replies := replies w @
              (case t2d (req_tx_id req) ?text 1500 of
                 (r, obuf) \<Rightarrow>
                   if r \<le> 0 then []
                   else [\<lparr>reply_server = req_dns_server req, reply_raddr = req_raddr req,
                          reply_bytes = take (nat r) obuf\<rparr>]),
            heap := (heap w)(p := None),
            frees := frees w @ [p]\<rparr>)" for t2d
    using https_resp_cb_body [OF assms(1) len(1) assms(4) len(2) inside, of t2d]
    by (simp only: handed)
  have semi: "CHR '';'' \<notin> set (c_str ?rec)"
    by (auto simp: c_str_def dest!: set_takeWhileD)
  have sent: "(case text_to_dns ttl (req_tx_id req) ?text 1500 of
                 (r, obuf) \<Rightarrow>
                   if r \<le> 0 then []
                   else [\<lparr>reply_server = req_dns_server req, reply_raddr = req_raddr req,
                          reply_bytes = take (nat r) obuf\<rparr>]) =
        (case encode_name (curl_escape nm) of
           None \<Rightarrow> []
         | Some qname \<Rightarrow>
            (case parse_answer_body (c_str ?rec) of
               None \<Rightarrow> []
             | Some answers \<Rightarrow>
                [\<lparr>reply_server = req_dns_server req, reply_raddr = req_raddr req,
                  reply_bytes =
                    be16 (req_tx_id req) @ be16 0x8080 @ be16 1 @
                    be16 (of_nat (length answers)) @ be16 0 @ be16 0 @
                    qname @ be16 1 @ be16 1 @
                    concat (map (answer_record ttl) answers)\<rparr>]))"
  proof (cases "encode_name (curl_escape nm)")
    case None
    then show ?thesis
      by (simp add: text_to_dns_record [OF assms(3) semi])
  next
    case (Some qname)
    note q = this
    show ?thesis
    proof (cases "parse_answer_body (c_str ?rec)")
      case None
      with q show ?thesis
        by (simp add: text_to_dns_record [OF assms(3) semi])
    next
      case (Some answers)
      have "length (be16 (req_tx_id req) @ be16 0x8080 @ be16 1 @
          be16 (of_nat (length answers)) @ be16 0 @ be16 0 @ qname @ be16 1 @ be16 1 @
          concat (map (answer_record ttl) answers)) = 16 + length qname + 16 * length answers"
        using answer_records_length [of answers ttl] parse_answer_body_four [OF Some]
        by (simp add: be16_def)
      with q Some show ?thesis
        by (simp add: text_to_dns_record [OF assms(3) semi])
    qed
  qed
  from run [of "text_to_dns ttl"] sent
  have "\<exists>w'. https_resp_cb (text_to_dns ttl) (Some p) (Some b) buflen w = Inr w' \<and>
      replies w' = replies w @
        (case encode_name (curl_escape nm) of
           None \<Rightarrow> []
         | Some qname \<Rightarrow>
            (case parse_answer_body (c_str ?rec) of
               None \<Rightarrow> []
             | Some answers \<Rightarrow>
                [\<lparr>reply_server = req_dns_server req, reply_raddr = req_raddr req,
                  reply_bytes =
                    be16 (req_tx_id req) @ be16 0x8080 @ be16 1 @
                    be16 (of_nat (length answers)) @ be16 0 @ be16 0 @
                    qname @ be16 1 @ be16 1 @
                    concat (map (answer_record ttl) answers)\<rparr>]))"
    by simp
  with run [of t2d] show ?thesis by simp
qed

theorem https_resp_cb_first_record_witness:
  "\<exists>w'. then_cb
          (dns_server_cb app0 0 (0x0A000001, 53000) 0x1234 0x0100 ''example.com'' 1 world0)
          (https_resp_cb (text_to_dns 600) (Some 0)
             (Some (buf_of ''93.184.216.34;93.184.216.35;'')) 28) = Inr w' \<and>
        replies w' =
          [\<lparr>reply_server = 0, reply_raddr = (0x0A000001, 53000),
            reply_bytes =
              [0x12, 0x34, 0x80, 0x80, 0, 1, 0, 1, 0, 0, 0, 0] @
              [7] @ map of_char ''example'' @ [3] @ map of_char ''com'' @ [0] @
              [0, 1, 0, 1] @ answer_record 600 [93, 184, 216, 34]\<rparr>]"
proof -
  let ?b = "buf_of ''93.184.216.34;93.184.216.35;''"
  have "answer_text (buf_mem ?b) 28 = ''93.184.216.34''"
    by (simp add: answer_text_def scan.simps buf_of_def mem_of_def)
  then have first: "takeWhile (\<lambda>c. c \<noteq> CHR '';'') (map (buf_mem ?b) [0..<28]) = ''93.184.216.34''"
    by (simp only: answer_text_takeWhile)
  have esc: "curl_escape ''example.com'' = ''example.com''"
    by (simp add: curl_escape_def escape_byte_def Curl_isunreserved_def)
  have live: "heap world1 0 = Some req1" and name: "req_name req1 = curl_escape ''example.com''"
    and mem: "\<not> oom world1" and none: "replies world1 = []"
    by (simp_all add: world1_def req1_def esc)
  have fits: "length (curl_escape ''example.com'') < 254"
    "length (curl_escape ''example.com'') + 28 + 2 < 2 ^ 32"
    by (simp_all add: esc)
  have semi: "(13::nat) < 28" "buf_mem ?b 13 = CHR '';''" "28 \<le> buf_size ?b"
    by (simp_all add: buf_of_def mem_of_def)
  have enc: "text_to_dns 600 0x1234 ''example.com:93.184.216.34'' 1500 =
      (45, [0x12, 0x34, 0x80, 0x80, 0, 1, 0, 1, 0, 0, 0, 0] @
           [7] @ map of_char ''example'' @ [3] @ map of_char ''com'' @ [0] @
           [0, 1, 0, 1] @ answer_record 600 [93, 184, 216, 34])"
    by (simp add: text_to_dns_def encode_name_def parse_answer_body_def listed_addresses_def
        parse_ipv4_def octet_def isdigit_def encode_response_def answer_record_def
        be16_def be32_def Let_def)
  have joined: "curl_escape ''example.com'' @ CHR '':'' # c_str ''93.184.216.34'' =
      ''example.com:93.184.216.34''"
    by (simp add: esc c_str_def)
  have "https_resp_cb (text_to_dns 600) (Some 0) (Some ?b) 28 world1 =
      Inr (world1\<lparr>replies := replies world1 @
              (case text_to_dns 600 (req_tx_id req1) ''example.com:93.184.216.34'' 1500 of
                 (r, obuf) \<Rightarrow>
                   if r \<le> 0 then []
                   else [\<lparr>reply_server = req_dns_server req1, reply_raddr = req_raddr req1,
                          reply_bytes = take (nat r) obuf\<rparr>]),
            heap := (heap world1)(0 := None),
            frees := frees world1 @ [0]\<rparr>)"
    using https_resp_cb_first_record
      [OF live name fits(1) mem fits(2) semi, of "text_to_dns 600" 600, THEN conjunct1]
    by (simp only: first joined)
  moreover have "req_tx_id req1 = 0x1234" "req_dns_server req1 = 0"
    "req_raddr req1 = (0x0A000001, 53000)"
    by (simp_all add: req1_def)
  ultimately have "https_resp_cb (text_to_dns 600) (Some 0) (Some ?b) 28 world1 =
      Inr (world1\<lparr>replies :=
              [\<lparr>reply_server = 0, reply_raddr = (0x0A000001, 53000),
                reply_bytes =
                  [0x12, 0x34, 0x80, 0x80, 0, 1, 0, 1, 0, 0, 0, 0] @
                  [7] @ map of_char ''example'' @ [3] @ map of_char ''com'' @ [0] @
                  [0, 1, 0, 1] @ answer_record 600 [93, 184, 216, 34]\<rparr>],
            heap := (heap world1)(0 := None),
            frees := frees world1 @ [0]\<rparr>)"
    by (simp add: enc none answer_record_def be16_def be32_def)
  then show ?thesis
    by (simp add: then_cb_def dns_server_cb_example)
qed

text \<open>
  C2 (as stated) fails on the body \<^verbatim>\<open>93.184.216.34;93.184.216.35;\<close>: it lists two
  addresses, the callback takes over the first one only.
\<close>

theorem second_address_counterexample:
  "answer_text (mem_of ''93.184.216.34;93.184.216.35;'' nul_bytes) 28 = ''93.184.216.34'' \<and>
   listed_addresses ''93.184.216.34;93.184.216.35;'' = [''93.184.216.34'', ''93.184.216.35''] \<and>
   listed_addresses (answer_text (mem_of ''93.184.216.34;93.184.216.35;'' nul_bytes) 28)
     \<noteq> listed_addresses ''93.184.216.34;93.184.216.35;''"
  by (simp add: answer_text_def scan.simps mem_of_def listed_addresses_def)

text \<open>
  C3. A query whose type is not 1 (A) or whose name is longer than 253 bytes is
  dropped: \<^verbatim>\<open>dns_server_cb\<close> returns with the world unchanged, so no fetch is issued and
  no reply is sent.
\<close>

theorem dns_server_cb_drop:
  assumes "type \<noteq> 1 \<or> 253 < length nm"
  shows "dns_server_cb app server addr tx_id flags nm type w = Inr w"
  using assms by (simp add: dns_server_cb_def)

theorem dns_server_cb_drop_witness:
  "dns_server_cb app0 0 (0x0A000001, 53000) 0x1234 0x0100 ''example.com'' 28 world0 = Inr world0"
  using dns_server_cb_drop [of 28 "''example.com''" app0 0 "(0x0A000001, 53000)" "0x1234" "0x0100" world0]
  by simp

text \<open>
  C4 (where it fails). When none of the first \<open>buflen\<close> bytes of the body is a
  semicolon, the delimiter scan reads the byte at index \<open>buflen\<close>, one past the
  declared length: the loop condition looks at \<open>buf[datalen]\<close> before it compares
  \<open>datalen\<close> with \<open>buflen\<close>.
\<close>

theorem scan_reads_index_buflen:
  assumes "\<forall>i<buflen. b i \<noteq> CHR '';''"
  shows "buflen \<in> set (snd (scan b buflen 0 []))"
proof -
  have "snd (scan b buflen 0 []) = [0..<Suc buflen]"
    using scan_snd [of b buflen 0 "[]"] scan_no_semicolon [OF assms] by simp
  then show ?thesis by simp
qed

theorem scan_reads_index_buflen_witness:
  "7 \<in> set (snd (scan (mem_of ''1.2.3.4'' nul_bytes) 7 0 []))"
proof -
  have "\<forall>i<7. mem_of ''1.2.3.4'' nul_bytes i \<noteq> CHR '';''"
    by (auto simp: mem_of_def nth_Cons')
  then show ?thesis by (rule scan_reads_index_buflen)
qed

text \<open>
  C9 (where it fails). The name \<open>wildcard_name\<close> has 139 bytes and passes the length
  check of \<^verbatim>\<open>dns_server_cb\<close>; its escaped form has 267 bytes, which do not fit the 254
  bytes of the context's name field, and \<^verbatim>\<open>memcpy\<close> writes past the field.
\<close>

theorem escaped_name_exceeds_field:
  "length wildcard_name = 139 \<and> length (curl_escape wildcard_name) = 267 \<and>
   dns_server_cb app server addr tx_id flags wildcard_name 1 w =
     (if oom w then Inl Fatal else Inl Undefined)"
  by (simp add: dns_server_cb_def Let_def wildcard_name_length wildcard_name_escaped)

theorem escaped_name_exceeds_field_witness:
  "dns_server_cb app0 0 (0x0A000001, 53000) 0x1234 0x0100 wildcard_name 1 world0 = Inl Undefined"
  using escaped_name_exceeds_field [of app0 0 "(0x0A000001, 53000)" "0x1234" "0x0100" world0]
  by (simp add: world0_def)

text \<open>
  C5 (as the code has it). Whatever the command line, \<^verbatim>\<open>main\<close> enters the event loop
  with \<^verbatim>\<open>app.resolv\<close> set to NULL; every fetch that \<^verbatim>\<open>dns_server_cb\<close> issues, in
  whatever world, is passed that NULL resolve list; and \<^verbatim>\<open>https_resp_cb\<close> issues no
  fetch. No fetch uses a bootstrap resolution, and the list in use never changes.
\<close>

theorem fetch_resolv_null:
  assumes "main le e argv = Inr (app, opt)"
  shows "resolv app = None \<and>
     (\<forall>server addr tx_id flags nm type w w'.
        dns_server_cb app server addr tx_id flags nm type w = Inr w' \<longrightarrow>
          fetches w' = fetches w \<or>
          (\<exists>f. fetches w' = fetches w @ [f] \<and> fetch_resolv f = None)) \<and>
     (\<forall>t2d data buf buflen w w'.
        https_resp_cb t2d data buf buflen w = Inr w' \<longrightarrow> fetches w' = fetches w)"
proof -
  from main_app [OF assms] have null: "resolv app = None" by auto
  have "fetches w' = fetches w \<or> (\<exists>f. fetches w' = fetches w @ [f] \<and> fetch_resolv f = None)"
    if "dns_server_cb app server addr tx_id flags nm type w = Inr w'"
    for server addr tx_id flags nm type w w'
    using dns_server_cb_fetches [OF that] null by simp
  moreover have "fetches w' = fetches w"
    if "https_resp_cb t2d data buf buflen w = Inr w'" for t2d data buf buflen w w'
    using that by (rule https_resp_cb_fetches)
  ultimately show ?thesis using null by blast
qed

theorem fetch_resolv_null_witness:
  "main 3 env0 [''https_dns_proxy''] = Inr (app0, (options_init 3)\<lparr>logfd := 1\<rparr>) \<and>
   resolv app0 = None \<and>
   (\<exists>f. fetches world1 = fetches world0 @ [f] \<and> fetch_resolv f = None)"
proof -
  note all = fetch_resolv_null [OF main_default]
  from all have null: "resolv app0 = None" by blast
  from all dns_server_cb_example
  have "fetches world1 = fetches world0 \<or>
    (\<exists>f. fetches world1 = fetches world0 @ [f] \<and> fetch_resolv f = None)"
    by blast
  moreover have "fetches world1 \<noteq> fetches world0"
    by (simp add: world1_def world0_def)
  ultimately have "\<exists>f. fetches world1 = fetches world0 @ [f] \<and> fetch_resolv f = None"
    by blast
  with null main_default show ?thesis by blast
qed

text \<open>
  C5 (as stated) fails on the default command line: the event loop is entered with
  no resolution made, and the first fetch goes out with the NULL resolve list.
\<close>

theorem no_bootstrap_counterexample:
  "main 3 env0 [''https_dns_proxy''] = Inr (app0, (options_init 3)\<lparr>logfd := 1\<rparr>) \<and>
   dns_server_cb app0 0 (0x0A000001, 53000) 0x1234 0x0100 ''example.com'' 1 world0 = Inr world1 \<and>
   map fetch_resolv (fetches world1) = [None]"
  by (simp add: main_default dns_server_cb_example) (simp add: world1_def)

text \<open>
  C7 (as the code has it). For an accepted query whose escaped name fits the context,
  the URL passed to \<^verbatim>\<open>https_client_fetch\<close> is \<^verbatim>\<open>http://119.29.29.29/d?dn=\<close> followed
  by the escaped name, and then by \<^verbatim>\<open>&ip=\<close> and the first 194 bytes of the configured
  subnet exactly when the subnet is not empty.
\<close>

theorem upstream_url:
  assumes "main le e argv = Inr (app, opt)" and "edns_client_subnet opt = Some subnet"
    and "type = 1" and "length nm \<le> 253" and "length (curl_escape nm) \<le> 254"
    and "\<not> oom w"
  shows "\<exists>w'. dns_server_cb app server addr tx_id flags nm type w = Inr w' \<and>
           fetches w' = fetches w @
             [\<lparr>fetch_client = 0,
               fetch_url = ''http://119.29.29.29/d?dn='' @ curl_escape nm @
                  (if subnet = [] then [] else ''&ip='' @ take 194 subnet),
               fetch_resolv = None, fetch_data = next_addr w\<rparr>]"
proof -
  from main_app [OF assms(1)] assms(2)
  have app: "app = \<lparr>https_client = 0, resolv = None,
                  extra_request_args =
                    (if subnet \<noteq> [] then ''&ip='' @ take 194 subnet else [])\<rparr>"
    by auto
  then have "length (extra_request_args app) \<le> 198" by simp
  from dns_server_cb_accept [OF assms(3-6) this] app show ?thesis by simp
qed

theorem upstream_url_witness:
  "\<exists>w'. dns_server_cb
          \<lparr>https_client = 0, resolv = None, extra_request_args = ''&ip=203.31.0.0/16''\<rparr>
          0 (0x0A000001, 53000) 0x1234 0x0100 ''example.com'' 1 world0 = Inr w' \<and>
        fetches w' = fetches world0 @
          [\<lparr>fetch_client = 0,
            fetch_url = ''http://119.29.29.29/d?dn=example.com&ip=203.31.0.0/16'',
            fetch_resolv = None, fetch_data = next_addr world0\<rparr>]"
proof -
  have m: "main 3 env0 [''https_dns_proxy'', ''-e'', ''203.31.0.0/16''] =
     Inr (\<lparr>https_client = 0, resolv = None, extra_request_args = ''&ip=203.31.0.0/16''\<rparr>,
          (options_init 3)\<lparr>edns_client_subnet := Some ''203.31.0.0/16'', logfd := 1\<rparr>)"
    by (simp add: main_subnet)
  have s: "edns_client_subnet
             ((options_init 3)\<lparr>edns_client_subnet := Some ''203.31.0.0/16'', logfd := 1\<rparr>) =
           Some ''203.31.0.0/16''"
    by simp
  have esc: "curl_escape ''example.com'' = ''example.com''"
    by (simp add: curl_escape_def escape_byte_def Curl_isunreserved_def)
  have ok: "(1::int) = 1" "length ''example.com'' \<le> 253"
    "length (curl_escape ''example.com'') \<le> 254" "\<not> oom world0"
    by (simp_all add: esc world0_def)
  show ?thesis
    using upstream_url [OF m s ok, of 0 "(0x0A000001, 53000)" "0x1234" "0x0100"]
    by (simp add: esc)
qed

text \<open>
  C7 (as stated) fails: the URL of the request for \<^verbatim>\<open>example.com\<close> has the scheme
  \<^verbatim>\<open>http\<close>, not \<^verbatim>\<open>https\<close>, and of a subnet argument of 200 bytes only 194 are
  appended.
\<close>

theorem upstream_url_counterexample:
  "dns_server_cb app0 0 (0x0A000001, 53000) 0x1234 0x0100 ''example.com'' 1 world0 = Inr world1 \<and>
   map fetch_url (fetches world1) = [''http://119.29.29.29/d?dn=example.com''] \<and>
   take 8 ''http://119.29.29.29/d?dn=example.com'' \<noteq> ''https://'' \<and>
   length long_subnet = 200 \<and>
   main 3 env0 [''https_dns_proxy'', ''-e'', long_subnet] =
     Inr (\<lparr>https_client = 0, resolv = None,
           extra_request_args = ''&ip='' @ replicate 194 CHR ''1''\<rparr>,
          (options_init 3)\<lparr>edns_client_subnet := Some long_subnet, logfd := 1\<rparr>)"
proof -
  have "long_subnet \<noteq> []" "take 194 long_subnet = replicate 194 CHR ''1''"
    "length long_subnet = 200"
    by (simp_all add: long_subnet_def)
  then show ?thesis
    by (simp add: dns_server_cb_example main_subnet) (simp add: world1_def)
qed

text \<open>
  C8 (where it fails). A log file that cannot be opened does not stop the start:
  \<^verbatim>\<open>options_parse_args\<close> stores the failed descriptor, returns 0, and \<^verbatim>\<open>main\<close> goes on
  to the event loop.
\<close>

theorem unwritable_logfile_enters_loop:
  "options_parse_args (e\<lparr>sys_open := (\<lambda>f. - 1)\<rparr>) (options_init le)
      [prog, ''-l'', ''/nonexistent/proxy.log''] =
     Inr (0, (options_init le)\<lparr>logfile := Some ''/nonexistent/proxy.log'', logfd := - 1\<rparr>) \<and>
   main le (e\<lparr>sys_open := (\<lambda>f. - 1)\<rparr>) [prog, ''-l'', ''/nonexistent/proxy.log''] =
     Inr (app0, (options_init le)\<lparr>logfile := Some ''/nonexistent/proxy.log'', logfd := - 1\<rparr>)"
proof -
  have parsed: "options_parse_args (e\<lparr>sys_open := (\<lambda>f. - 1)\<rparr>) (options_init le)
      [prog, ''-l'', ''/nonexistent/proxy.log''] =
     Inr (0, (options_init le)\<lparr>logfile := Some ''/nonexistent/proxy.log'', logfd := - 1\<rparr>)"
    by (simp add: options_parse_args_def options_loop.simps getopt_def optstring_def
        switch_c_def lookup_ids_def open_logfile_def options_init_def)
  have "main le (e\<lparr>sys_open := (\<lambda>f. - 1)\<rparr>) [prog, ''-l'', ''/nonexistent/proxy.log''] =
     Inr (app0, (options_init le)\<lparr>logfile := Some ''/nonexistent/proxy.log'', logfd := - 1\<rparr>)"
    by (simp add: main_def parsed app0_def) (simp add: options_init_def)
  with parsed show ?thesis by simp
qed

text \<open>
  C10. When \<^verbatim>\<open>options_parse_args\<close> accepts a command line (returns 0),
  \<^verbatim>\<open>bootstrap_dns\<close> is still the list that \<^verbatim>\<open>options_init\<close> installed; and a command
  line that starts with \<^verbatim>\<open>-b\<close> is rejected with \<open>-1\<close>, as an unknown option.
\<close>

theorem bootstrap_dns_fixed:
  "(options_parse_args e (options_init le) argv = Inr (0, opt') \<longrightarrow>
      bootstrap_dns opt' = bootstrap_dns (options_init le)) \<and>
   options_parse_args e opt (prog # (CHR ''-'' # CHR ''b'' # x) # rest) = Inr (- 1, opt)"
  using options_parse_args_bootstrap_dns [of e "options_init le" argv 0 opt']
    option_b_rejected [of e opt prog x rest]
  by simp

theorem bootstrap_dns_fixed_witness:
  "\<exists>opt'. options_parse_args env0 (options_init 3) argv1 = Inr (0, opt') \<and>
     bootstrap_dns opt' = Some
       ''8.8.8.8,8.8.4.4,145.100.185.15,145.100.185.16,185.49.141.37,199.58.81.218,80.67.188.188''"
proof -
  let ?opt = "(options_init 3)\<lparr>listen_port := 53, edns_client_subnet := Some ''203.31.0.0/16'',
                               logfd := 1\<rparr>"
  have "bootstrap_dns ?opt = bootstrap_dns (options_init 3)"
    using bootstrap_dns_fixed [of env0 3 argv1 ?opt] argv1_parsed by simp
  then have "bootstrap_dns ?opt = Some
       ''8.8.8.8,8.8.4.4,145.100.185.15,145.100.185.16,185.49.141.37,199.58.81.218,80.67.188.188''"
    by (simp add: options_init_def)
  with argv1_parsed show ?thesis by blast
qed

text \<open>
  C6. For every accepted query: \<^verbatim>\<open>dns_server_cb\<close> either halts, for want of memory
  or because the escaped name overruns the context, or stores the context and issues
  one fetch whose data is that context. Whenever the completion callback of that
  fetch returns, what it has sent is what the encoder made of the transaction id of
  the query and the text \<^verbatim>\<open>name:record\<close>, sent to the address of the query; with the
  \<^verbatim>\<open>text_to_dns\<close> of the spec that is no reply, or one reply with the transaction id
  of the query in its header. The reply is sent when the first record of the body,
  inside the buffer and ended by a semicolon, parses as addresses and the name has an
  encoding. The query for \<^verbatim>\<open>example.com\<close> with id \<^verbatim>\<open>0x1234\<close>, answered with
  \<^verbatim>\<open>93.184.216.34;\<close>, gets a response with id \<^verbatim>\<open>0x1234\<close>, answer count 1 and that
  address in its answer record.
\<close>

theorem reply_keeps_tx_id:
  assumes "type = 1" and "length nm \<le> 253"
  shows
   "(case dns_server_cb app server addr tx_id flags nm type w of
       Inl h \<Rightarrow> oom w \<or> 254 < length (curl_escape nm)
     | Inr w1 \<Rightarrow>
        (\<exists>f. fetches w1 = fetches w @ [f] \<and> fetch_data f = next_addr w) \<and>
        (\<forall>t2d w2 buf buflen w3.
           heap w2 (next_addr w) = heap w1 (next_addr w) \<and>
           https_resp_cb t2d (Some (next_addr w)) buf buflen w2 = Inr w3 \<longrightarrow>
             replies w3 = replies w2 @
               (case buf of
                  None \<Rightarrow> []
                | Some b \<Rightarrow>
                   (case t2d tx_id
                           (c_str (curl_escape nm @ CHR '':'' # answer_text (buf_mem b) buflen))
                           1500 of
                      (r, obuf) \<Rightarrow>
                        if r \<le> 0 then []
                        else [\<lparr>reply_server = server, reply_raddr = addr,
                               reply_bytes = take (nat r) obuf\<rparr>]))) \<and>
        (\<forall>w2 buf buflen w3.
           heap w2 (next_addr w) = heap w1 (next_addr w) \<and>
           https_resp_cb (text_to_dns ttl) (Some (next_addr w)) buf buflen w2 = Inr w3 \<longrightarrow>
             replies w3 = replies w2 \<or>
             (\<exists>bytes. replies w3 = replies w2 @
                         [\<lparr>reply_server = server, reply_raddr = addr, reply_bytes = bytes\<rparr>] \<and>
                      reply_id bytes = Some tx_id)) \<and>
        (\<forall>w2 b buflen i.
           heap w2 (next_addr w) = heap w1 (next_addr w) \<and> \<not> oom w2 \<and>
           length (curl_escape nm) < 254 \<and> length (curl_escape nm) + buflen + 2 < 2 ^ 32 \<and>
           i < buflen \<and> buf_mem b i = CHR '';'' \<and> buflen \<le> buf_size b \<and>
           encode_name (curl_escape nm) \<noteq> None \<and>
           parse_answer_body
             (c_str (takeWhile (\<lambda>c. c \<noteq> CHR '';'') (map (buf_mem b) [0..<buflen]))) \<noteq> None \<longrightarrow>
             (\<exists>w3 bytes.
                https_resp_cb (text_to_dns ttl) (Some (next_addr w)) (Some b) buflen w2 = Inr w3 \<and>
                replies w3 = replies w2 @
                  [\<lparr>reply_server = server, reply_raddr = addr, reply_bytes = bytes\<rparr>] \<and>
                reply_id bytes = Some tx_id))) \<and>
    (\<exists>w3. then_cb
            (dns_server_cb app0 0 (0x0A000001, 53000) 0x1234 0x0100 ''example.com'' 1 world0)
            (https_resp_cb (text_to_dns ttl) (Some 0) (Some (buf_of ''93.184.216.34;'')) 14) =
              Inr w3 \<and>
          replies w3 =
            [\<lparr>reply_server = 0, reply_raddr = (0x0A000001, 53000),
              reply_bytes =
                [0x12, 0x34, 0x80, 0x80, 0, 1, 0, 1, 0, 0, 0, 0] @
                [7] @ map of_char ''example'' @ [3] @ map of_char ''com'' @ [0] @
                [0, 1, 0, 1] @
                [0xC0, 0x0C, 0, 1, 0, 1] @ be32 ttl @ [0, 4] @ [93, 184, 216, 34]\<rparr>] \<and>
          frees w3 = [0])"
    (is "?run \<and> ?scenario")
proof (rule conjI)
  let ?p = "next_addr w"
  let ?esc = "curl_escape nm"
  let ?req = "\<lparr>req_tx_id = tx_id, req_raddr = addr, req_dns_server = server, req_name = ?esc\<rparr>"
  show ?run
  proof (cases "dns_server_cb app server addr tx_id flags nm type w")
    case (Inl h)
    with assms have "oom w \<or> 254 < length ?esc"
      by (auto simp: dns_server_cb_def Let_def split: if_splits)
    with Inl show ?thesis by simp
  next
    case (Inr w1)
    have ctx: "heap w1 ?p = Some ?req"
      using dns_server_cb_context [OF Inr assms] .
    have fetch: "\<exists>f. fetches w1 = fetches w @ [f] \<and> fetch_data f = ?p"
      using Inr assms by (auto simp: dns_server_cb_def Let_def split: if_splits)
    have handed: "replies w3 = replies w2 @
          (case buf of
             None \<Rightarrow> []
           | Some b \<Rightarrow>
              (case t2d tx_id
                      (c_str (?esc @ CHR '':'' # answer_text (buf_mem b) buflen)) 1500 of
                 (r, obuf) \<Rightarrow>
                   if r \<le> 0 then []
                   else [\<lparr>reply_server = server, reply_raddr = addr,
                          reply_bytes = take (nat r) obuf\<rparr>]))"
      if same: "heap w2 ?p = heap w1 ?p"
        and cb: "https_resp_cb t2d (Some ?p) buf buflen w2 = Inr w3"
      for t2d w2 buf buflen w3
    proof (cases buf)
      case None
      with cb show ?thesis by (simp add: https_resp_cb_def)
    next
      case (Some b)
      from https_resp_cb_Inr [OF cb [unfolded Some]] same ctx Some
      show ?thesis by (auto split: prod.splits)
    qed
    have sent: "replies w3 = replies w2 \<or>
        (\<exists>bytes. replies w3 = replies w2 @
                    [\<lparr>reply_server = server, reply_raddr = addr, reply_bytes = bytes\<rparr>] \<and>
                 reply_id bytes = Some tx_id)"
      if same: "heap w2 ?p = heap w1 ?p"
        and cb: "https_resp_cb (text_to_dns ttl) (Some ?p) buf buflen w2 = Inr w3"
      for w2 buf buflen w3
    proof (cases buf)
      case None
      with cb show ?thesis by (simp add: https_resp_cb_def)
    next
      case (Some b)
      obtain r obuf where t:
        "text_to_dns ttl tx_id (c_str (?esc @ [CHR '':''] @ answer_text (buf_mem b) buflen)) 1500
           = (r, obuf)"
        by (cases "text_to_dns ttl tx_id
              (c_str (?esc @ [CHR '':''] @ answer_text (buf_mem b) buflen)) 1500")
      from https_resp_cb_Inr [OF cb [unfolded Some]] same ctx t
      have rep: "replies w3 = replies w2 @
          (if r \<le> 0 then []
           else [\<lparr>reply_server = server, reply_raddr = addr, reply_bytes = take (nat r) obuf\<rparr>])"
        by auto
      show ?thesis
      proof (cases "r \<le> 0")
        case True
        with rep show ?thesis by simp
      next
        case False
        then have "reply_id (take (nat r) obuf) = Some tx_id"
          using text_to_dns_id [OF t] by simp
        with rep False show ?thesis by auto
      qed
    qed
    have reply: "\<exists>w3 bytes.
          https_resp_cb (text_to_dns ttl) (Some ?p) (Some b) buflen w2 = Inr w3 \<and>
          replies w3 = replies w2 @
            [\<lparr>reply_server = server, reply_raddr = addr, reply_bytes = bytes\<rparr>] \<and>
          reply_id bytes = Some tx_id"
      if same: "heap w2 ?p = heap w1 ?p" and mem: "\<not> oom w2"
        and fits: "length ?esc < 254" "length ?esc + buflen + 2 < 2 ^ 32"
        and semi: "i < buflen" "buf_mem b i = CHR '';''" "buflen \<le> buf_size b"
        and enc: "encode_name ?esc \<noteq> None"
        and parse: "parse_answer_body
             (c_str (takeWhile (\<lambda>c. c \<noteq> CHR '';'') (map (buf_mem b) [0..<buflen]))) \<noteq> None"
      for w2 b buflen i
    proof -
      let ?rec = "c_str (takeWhile (\<lambda>c. c \<noteq> CHR '';'') (map (buf_mem b) [0..<buflen]))"
      let ?text = "?esc @ CHR '':'' # ?rec"
      have live: "heap w2 ?p = Some ?req" using same ctx by simp
      have inside: "fst (scan (buf_mem b) buflen 0 []) < buf_size b"
        using scan_semicolon [of i buflen "buf_mem b"] semi by simp
      have joined: "c_str (?esc @ CHR '':'' # answer_text (buf_mem b) buflen) = ?text"
        using c_str_name [OF curl_escape_chars(2), of nm]
        by (simp add: answer_text_takeWhile)
      obtain qname answers where q: "encode_name ?esc = Some qname"
        and a: "parse_answer_body ?rec = Some answers"
        using enc parse by auto
      have "length qname \<le> 255"
        using encode_name_length [OF q] fits(1) by simp
      then have room: "\<not> 1500 < 12 + length qname + 4" by simp
      obtain r obuf where t: "text_to_dns ttl tx_id ?text 1500 = (r, obuf)"
        by (cases "text_to_dns ttl tx_id ?text 1500")
      have "r = int (length (encode_response ttl tx_id qname answers 1500))"
        using t text_to_dns_name_body [OF curl_escape_chars(1), of ttl tx_id nm ?rec 1500] q a room
        by auto
      moreover have "12 \<le> length (encode_response ttl tx_id qname answers 1500)"
        by (simp add: encode_response_def Let_def be16_def)
      ultimately have pos: "0 < r" by linarith
      have id: "reply_id (take (nat r) obuf) = Some tx_id"
        using text_to_dns_id [OF t pos] .
      have "https_resp_cb (text_to_dns ttl) (Some ?p) (Some b) buflen w2 =
          Inr (w2\<lparr>replies := replies w2 @
                  [\<lparr>reply_server = server, reply_raddr = addr,
                    reply_bytes = take (nat r) obuf\<rparr>],
                heap := (heap w2)(?p := None),
                frees := frees w2 @ [?p]\<rparr>)"
        using https_resp_cb_body [OF live _ mem _ inside, of "text_to_dns ttl"] fits pos
        by (simp add: joined t)
      with id show ?thesis by simp
    qed
    show ?thesis
      unfolding Inr sum.case using fetch handed sent reply by blast
  qed
next
  let ?b = "buf_of ''93.184.216.34;''"
  let ?bytes = "[0x12, 0x34, 0x80, 0x80, 0, 1, 0, 1, 0, 0, 0, 0] @
                [7] @ map of_char ''example'' @ [3] @ map of_char ''com'' @ [0] @
                [0, 1, 0, 1] @
                [0xC0, 0x0C, 0, 1, 0, 1] @ be32 ttl @ [0, 4] @ [93, 184, 216, 34 :: byte]"
  have first: "answer_text (buf_mem ?b) 14 = ''93.184.216.34''"
    by (simp add: answer_text_def scan.simps buf_of_def mem_of_def)
  have inside: "fst (scan (buf_mem ?b) 14 0 []) < buf_size ?b"
    by (simp add: scan.simps buf_of_def mem_of_def)
  have enc: "text_to_dns ttl 0x1234 ''example.com:93.184.216.34'' 1500 = (45, ?bytes)"
    by (simp add: text_to_dns_def encode_name_def parse_answer_body_def listed_addresses_def
        parse_ipv4_def octet_def isdigit_def encode_response_def answer_record_def
        be16_def be32_def Let_def)
  have live: "heap world1 0 = Some req1" and mem: "\<not> oom world1"
    and none: "replies world1 = []" "frees world1 = []"
    by (simp_all add: world1_def)
  have fits: "length (req_name req1) < 254" "length (req_name req1) + 14 + 2 < 2 ^ 32"
    by (simp_all add: req1_def)
  have call: "text_to_dns ttl (req_tx_id req1)
        (c_str (req_name req1 @ [CHR '':''] @ answer_text (buf_mem ?b) 14)) 1500 = (45, ?bytes)"
    using enc by (simp add: first req1_def c_str_def)
  have "https_resp_cb (text_to_dns ttl) (Some 0) (Some ?b) 14 world1 =
      Inr (world1\<lparr>replies :=
              [\<lparr>reply_server = 0, reply_raddr = (0x0A000001, 53000), reply_bytes = ?bytes\<rparr>],
            heap := (heap world1)(0 := None),
            frees := [0]\<rparr>)"
    unfolding https_resp_cb_body [OF live fits(1) mem fits(2) inside] call
    by (simp add: none req1_def be32_def)
  then show ?scenario
    by (simp add: then_cb_def dns_server_cb_example)
qed

theorem reply_keeps_tx_id_witness:
  "(\<exists>f. fetches world1 = fetches world0 @ [f] \<and> fetch_data f = next_addr world0) \<and>
   (\<exists>w3 bytes.
     then_cb
       (dns_server_cb app0 0 (0x0A000001, 53000) 0x1234 0x0100 ''example.com'' 1 world0)
       (https_resp_cb (text_to_dns 600) (Some 0) (Some (buf_of ''93.184.216.34;'')) 14) = Inr w3 \<and>
     replies w3 = [\<lparr>reply_server = 0, reply_raddr = (0x0A000001, 53000), reply_bytes = bytes\<rparr>] \<and>
     reply_id bytes = Some 0x1234 \<and> reply_ancount bytes = Some 1 \<and>
     drop (length bytes - 4) bytes = [93, 184, 216, 34])"
proof -
  let ?bytes = "[0x12, 0x34, 0x80, 0x80, 0, 1, 0, 1, 0, 0, 0, 0] @
                [7] @ map of_char ''example'' @ [3] @ map of_char ''com'' @ [0] @
                [0, 1, 0, 1] @
                [0xC0, 0x0C, 0, 1, 0, 1] @ be32 600 @ [0, 4] @ [93, 184, 216, 34 :: byte]"
  have acc: "(1::int) = 1" "length ''example.com'' \<le> 253" by simp_all
  note all = reply_keeps_tx_id
    [where type = 1 and nm = "''example.com''" and app = app0 and server = 0
       and addr = "(0x0A000001, 53000)" and tx_id = "0x1234" and flags = "0x0100"
       and w = world0 and ttl = 600, OF acc]
  from all [THEN conjunct1, unfolded dns_server_cb_example sum.case]
  have issued: "\<exists>f. fetches world1 = fetches world0 @ [f] \<and> fetch_data f = next_addr world0"
    by (rule conjunct1)
  from all [THEN conjunct2]
  obtain w3 where run: "then_cb
       (dns_server_cb app0 0 (0x0A000001, 53000) 0x1234 0x0100 ''example.com'' 1 world0)
       (https_resp_cb (text_to_dns 600) (Some 0) (Some (buf_of ''93.184.216.34;'')) 14) = Inr w3"
    and rep: "replies w3 =
       [\<lparr>reply_server = 0, reply_raddr = (0x0A000001, 53000), reply_bytes = ?bytes\<rparr>]"
    by blast
  have "reply_id ?bytes = Some 0x1234"
    by (simp add: reply_id_def word_cat_eq)
  moreover have "reply_ancount ?bytes = Some 1"
    by (simp add: reply_ancount_def)
  moreover have "drop (length ?bytes - 4) ?bytes = [93, 184, 216, 34]"
    by (simp add: be32_def)
  ultimately show ?thesis using issued run rep by blast
qed

end
